theory Spec2Isabelle
  imports Complex_Main "HOL-Library.Log_Nat"
begin

section \<open>Numbers\<close>

text \<open>
  The programs compute with IEEE double-precision numbers (Python \<open>float\<close>, numpy
  \<open>float64\<close>).  A finite double is modelled by the real number it stands for, and
  every arithmetic operation that the source itself writes on doubles rounds its exact
  result to the nearest double, ties to the even significand (\<open>fround\<close>).  The range of
  the exponent is not bounded: overflow to infinity and the subnormal numbers are left
  out, and so is the sign of zero.  The three non-finite values that numpy produces when
  a \<open>float64\<close> is divided by zero are kept as values of their own.  Values read from
  the log or from the hardware are finite numbers (\<open>real\<close>, \<open>int\<close>).

  What the libraries compute inside (the rolling standard deviation and the mean of
  pandas, the fit of scikit-learn) is modelled by the exact value of the statistic, and
  so is the arithmetic on these values.
\<close>

datatype fl = Fin real | PInf | NInf | NaN

datatype py_error = OSError | ValueError | OverflowError

text \<open>Rounding to the nearest integer, ties to the even neighbour.\<close>

definition round_half_even :: "real \<Rightarrow> int" where
  "round_half_even x =
     (if x - of_int \<lfloor>x\<rfloor> < 1 / 2 then \<lfloor>x\<rfloor>
      else if 1 / 2 < x - of_int \<lfloor>x\<rfloor> then \<lfloor>x\<rfloor> + 1
      else if even \<lfloor>x\<rfloor> then \<lfloor>x\<rfloor> else \<lfloor>x\<rfloor> + 1)"

text \<open>
  The binary exponent of a number other than 0: the \<open>e\<close> with
  \<open>2 powi e \<le> \<bar>x\<bar>\<close> and \<open>\<bar>x\<bar> < 2 powi (e + 1)\<close>, computed from the bit length of
  an integer.
\<close>

definition bexp :: "real \<Rightarrow> int" where
  "bexp x =
     (if 1 \<le> \<bar>x\<bar> then int (floorlog 2 (nat \<lfloor>\<bar>x\<bar>\<rfloor>)) - 1
      else - int (floorlog 2 (nat \<lceil>1 / \<bar>x\<bar>\<rceil> - 1)))"

text \<open>
  The double nearest to a real number: a significand of 53 bits, so the spacing of the
  doubles around \<open>x\<close> is \<open>2\<close> to the power \<open>bexp x - 52\<close>.
\<close>

definition fround :: "real \<Rightarrow> real" where
  "fround x =
     (if x = 0 then 0
      else of_int (round_half_even (x / 2 powi (bexp x - 52))) * 2 powi (bexp x - 52))"

text \<open>The four operations on doubles.\<close>

definition fadd :: "real \<Rightarrow> real \<Rightarrow> real" where
  "fadd a b = fround (a + b)"

definition fsub :: "real \<Rightarrow> real \<Rightarrow> real" where
  "fsub a b = fround (a - b)"

definition fmul :: "real \<Rightarrow> real \<Rightarrow> real" where
  "fmul a b = fround (a * b)"

definition fdiv :: "real \<Rightarrow> real \<Rightarrow> real" where
  "fdiv a b = fround (a / b)"

text \<open>\<open>a / b\<close> on two \<open>float64\<close> scalars: a zero divisor gives a warning and a non-finite value.\<close>

definition fl_div :: "real \<Rightarrow> real \<Rightarrow> fl" where
  "fl_div a b =
     (if b \<noteq> 0 then Fin (fdiv a b)
      else if 0 < a then PInf else if a < 0 then NInf else NaN)"

text \<open>\<open>f * c\<close> and \<open>f + c\<close> on a \<open>float64\<close> and a finite number.\<close>

fun fl_mul :: "fl \<Rightarrow> real \<Rightarrow> fl" where
  "fl_mul (Fin x) c = Fin (fmul x c)"
| "fl_mul PInf c = (if 0 < c then PInf else if c < 0 then NInf else NaN)"
| "fl_mul NInf c = (if 0 < c then NInf else if c < 0 then PInf else NaN)"
| "fl_mul NaN c = NaN"

fun fl_add :: "fl \<Rightarrow> real \<Rightarrow> fl" where
  "fl_add (Fin x) c = Fin (fadd x c)"
| "fl_add PInf c = PInf"
| "fl_add NInf c = NInf"
| "fl_add NaN c = NaN"

text \<open>The exact product \<open>f * c\<close>, for the statistics of the libraries.\<close>

fun fl_times :: "fl \<Rightarrow> real \<Rightarrow> fl" where
  "fl_times (Fin x) c = Fin (x * c)"
| "fl_times PInf c = (if 0 < c then PInf else if c < 0 then NInf else NaN)"
| "fl_times NInf c = (if 0 < c then NInf else if c < 0 then PInf else NaN)"
| "fl_times NaN c = NaN"

text \<open>\<open>c - f\<close> for a finite \<open>c\<close>.\<close>

fun fl_rminus :: "real \<Rightarrow> fl \<Rightarrow> fl" where
  "fl_rminus c (Fin x) = Fin (c - x)"
| "fl_rminus c PInf = NInf"
| "fl_rminus c NInf = PInf"
| "fl_rminus c NaN = NaN"

text \<open>\<open>f < c\<close>: every comparison with NaN is false.\<close>

fun fl_less :: "fl \<Rightarrow> real \<Rightarrow> bool" where
  "fl_less (Fin x) c = (x < c)"
| "fl_less PInf c = False"
| "fl_less NInf c = True"
| "fl_less NaN c = False"

text \<open>
  A number rounded to \<open>n\<close> decimals, ties to the even last digit: the exact decimal
  that Python's \<open>round(x, n)\<close> aims at.
\<close>

definition py_round :: "real \<Rightarrow> nat \<Rightarrow> real" where
  "py_round x n = of_int (round_half_even (x * 10 ^ n)) / 10 ^ n"

text \<open>
  \<open>round(x, n)\<close> on a Python \<open>float\<close>: the double nearest to the exact value of
  \<open>x\<close> rounded to \<open>n\<close> decimals.
\<close>

definition f64_round :: "real \<Rightarrow> nat \<Rightarrow> real" where
  "f64_round x n = fround (py_round x n)"

text \<open>
  \<open>round(x, n)\<close> on a numpy \<open>float64\<close>, which is \<open>numpy.round\<close>: multiply by
  \<open>10 ^ n\<close>, round to the nearest integer (\<open>rint\<close>), divide by \<open>10 ^ n\<close>, each
  step in doubles.
\<close>

definition np_round :: "real \<Rightarrow> nat \<Rightarrow> real" where
  "np_round x n = fdiv (of_int (round_half_even (fmul x (10 ^ n)))) (10 ^ n)"

fun fl_np_round :: "fl \<Rightarrow> nat \<Rightarrow> fl" where
  "fl_np_round (Fin x) n = Fin (np_round x n)"
| "fl_np_round PInf n = PInf"
| "fl_np_round NInf n = NInf"
| "fl_np_round NaN n = NaN"

text \<open>An exact statistic rounded to \<open>n\<close> decimals: non-finite values pass through.\<close>

fun fl_round :: "fl \<Rightarrow> nat \<Rightarrow> fl" where
  "fl_round (Fin x) n = Fin (py_round x n)"
| "fl_round PInf n = PInf"
| "fl_round NInf n = NInf"
| "fl_round NaN n = NaN"

text \<open>\<open>int(x)\<close> truncates towards zero.\<close>

definition trunc :: "real \<Rightarrow> int" where
  "trunc x = (if 0 \<le> x then \<lfloor>x\<rfloor> else \<lceil>x\<rceil>)"

text \<open>\<open>int(f)\<close> on a \<open>float64\<close> raises on the non-finite values.\<close>

fun py_int :: "fl \<Rightarrow> py_error + int" where
  "py_int (Fin x) = Inr (trunc x)"
| "py_int PInf = Inl OverflowError"
| "py_int NInf = Inl OverflowError"
| "py_int NaN = Inl ValueError"

section \<open>The telemetry row\<close>

text \<open>One row of \<open>battery_master_log.csv\<close>, with the columns of \<open>PowerStationLogger.fields\<close>.\<close>

record telemetry =
  timestamp :: string
  pct :: int
  status :: string
  voltage_v :: real
  current_a :: real
  power_w :: real
  temp_c :: real
  energy_wh :: real
  energy_full_wh :: real
  energy_design_wh :: real
  cycles :: int
  charge_rate_w :: real

section \<open>analytics.py\<close>

text \<open>
  The dictionary returned by \<open>BMSAnalytics.analyze\<close>; the fields stand for the keys
  "SoH (%)", "Health Score", "Discharge Rate", "Stability Index", "Cycle Count" and
  "Recommendations", in this order.
\<close>

record report =
  soh_percent :: fl
  health_score :: int
  discharge_rate :: real
  stability_index :: fl
  cycle_count :: int
  recommendations :: "string list"

definition empty_metrics :: report where
  "empty_metrics =
     \<lparr>soh_percent = Fin 0, health_score = 0, discharge_rate = 0,
      stability_index = Fin 0, cycle_count = 0,
      recommendations = [''Waiting for data...'']\<rparr>"

text \<open>
  \<open>soh = (latest['energy_full_wh'] / latest['energy_design_wh']) * 100\<close>, where
  \<open>latest = self.df.iloc[-1]\<close> holds numpy scalars: the division is numpy's and does
  not raise on a zero divisor.
\<close>

definition soh :: "telemetry \<Rightarrow> fl" where
  "soh latest = fl_mul (fl_div (energy_full_wh latest) (energy_design_wh latest)) 100"

text \<open>
  \<open>Series.rolling(window=5).std()\<close>: the entry at position \<open>i\<close> is the sample standard
  deviation (divisor \<open>w - 1\<close>) of the \<open>w\<close> values ending at \<open>i\<close>, and is absent (NaN)
  while fewer than \<open>w\<close> values are available.
\<close>

definition mean :: "real list \<Rightarrow> real" where
  "mean vs = sum_list vs / real (length vs)"

definition sample_std :: "real list \<Rightarrow> real" where
  "sample_std vs =
     sqrt ((\<Sum>v\<leftarrow>vs. (v - mean vs) ^ 2) / (real (length vs) - 1))"

definition rolling_std :: "nat \<Rightarrow> real list \<Rightarrow> real option list" where
  "rolling_std w vs =
     map (\<lambda>i. if i + 1 < w then None
              else Some (sample_std (take w (drop (i + 1 - w) vs))))
         [0..<length vs]"

text \<open>\<open>Series.mean()\<close> skips the absent entries; the mean of no entry at all is NaN.\<close>

definition present :: "real option list \<Rightarrow> real list" where
  "present os = concat (map (\<lambda>x. case x of None \<Rightarrow> [] | Some v \<Rightarrow> [v]) os)"

definition series_mean :: "real option list \<Rightarrow> fl" where
  "series_mean os =
     (let vs = present os
      in if vs = [] then NaN else Fin (mean vs))"

definition v_stability :: "telemetry list \<Rightarrow> fl" where
  "v_stability df =
     fl_rminus 100 (fl_times (series_mean (rolling_std 5 (map voltage_v df))) 10)"

text \<open>
  \<open>min(20, (latest['cycles'] / 1000) * 20)\<close>: the division turns the integer into a
  double first.
\<close>

definition cycle_penalty :: "telemetry \<Rightarrow> real" where
  "cycle_penalty latest =
     min 20 (fmul (fdiv (fround (real_of_int (cycles latest))) 1000) 20)"

text \<open>\<open>Series.max()\<close> of a column without absent entries.\<close>

definition col_max :: "real list \<Rightarrow> real" where
  "col_max vs = fold max (tl vs) (hd vs)"

definition temp_penalty :: "telemetry list \<Rightarrow> real" where
  "temp_penalty df = (if 45 < col_max (map temp_c df) then 20 else 0)"

text \<open>
  \<open>(soh * 0.6) + (20 - cycle_penalty) + (20 - temp_penalty)\<close>: the literal \<open>0.6\<close> is
  the double nearest to 6/10, and the sum is taken from the left.
\<close>

definition health_score_raw :: "telemetry list \<Rightarrow> fl" where
  "health_score_raw df =
     fl_add
       (fl_add (fl_mul (soh (last df)) (fround (6 / 10))) (fsub 20 (cycle_penalty (last df))))
       (20 - temp_penalty df)"

text \<open>\<open>DataFrame.tail(10)\<close>\<close>

definition tail :: "nat \<Rightarrow> 'a list \<Rightarrow> 'a list" where
  "tail n xs = drop (length xs - n) xs"

text \<open>
  \<open>LinearRegression().fit(x, y).coef_[0]\<close> with the single feature \<open>x = 0, 1, ..., n - 1\<close>:
  the slope of the least-squares line with intercept through the points \<open>(i, y\<^sub>i)\<close>.
\<close>

definition ols_slope :: "real list \<Rightarrow> real" where
  "ols_slope ys =
     (let n = length ys;
          xs = map real [0..<n];
          mx = mean xs;
          my = mean ys
      in (\<Sum>(x, y)\<leftarrow>zip xs ys. (x - mx) * (y - my)) / (\<Sum>x\<leftarrow>xs. (x - mx) ^ 2))"

definition slope :: "telemetry list \<Rightarrow> real" where
  "slope df = ols_slope (map (\<lambda>s. real_of_int (pct s)) (tail 10 df))"

definition rec_thermal :: string where
  "rec_thermal = ''Critical: Thermal throttling advised. High temp reduces lifespan.''"

definition rec_eol :: string where
  "rec_eol = ''Battery reaching End-of-Life (SoH < 80%). Consider replacement.''"

definition rec_discharge :: string where
  "rec_discharge = ''Rapid Discharge: Heavy background processes detected.''"

definition recs :: "telemetry list \<Rightarrow> string list" where
  "recs df =
     (if 40 < temp_c (last df) then [rec_thermal] else []) @
     (if fl_less (soh (last df)) 80 then [rec_eol] else []) @
     (if slope df < - (1 / 2) then [rec_discharge] else [])"

text \<open>
  \<open>BMSAnalytics.analyze\<close> on the rows of the log.  The only operation that can raise is
  \<open>int(health_score)\<close>, evaluated while the result dictionary is built.
\<close>

definition analyze :: "telemetry list \<Rightarrow> py_error + report" where
  "analyze df =
     (if df = [] \<or> length df < 2 then Inr empty_metrics
      else
        (case py_int (health_score_raw df) of
           Inl e \<Rightarrow> Inl e
         | Inr h \<Rightarrow>
             Inr \<lparr>soh_percent = fl_np_round (soh (last df)) 2,
                  health_score = h,
                  discharge_rate = py_round (slope df) 3,
                  stability_index = fl_round (v_stability df) 2,
                  cycle_count = cycles (last df),
                  recommendations = recs df\<rparr>))"

section \<open>Least squares\<close>

text \<open>
  The line fitted by ordinary least squares to the points \<open>(i, y\<^sub>i)\<close>, \<open>i = 0, ..., n - 1\<close>,
  is the one whose sum of squared residuals is least.  \<open>sq_err ys a b\<close> is that sum
  for the line \<open>a * x + b\<close>; \<open>ols_intercept\<close> is the intercept that goes with
  \<open>ols_slope\<close>; \<open>sxy\<close> is the sum of products of deviations from the means.
\<close>

definition sq_err :: "real list \<Rightarrow> real \<Rightarrow> real \<Rightarrow> real" where
  "sq_err ys a b = (\<Sum>i<length ys. (ys ! i - (a * real i + b)) ^ 2)"

definition ols_intercept :: "real list \<Rightarrow> real" where
  "ols_intercept ys = mean ys - ols_slope ys * mean (map real [0..<length ys])"

definition sxy :: "nat \<Rightarrow> (nat \<Rightarrow> real) \<Rightarrow> (nat \<Rightarrow> real) \<Rightarrow> real" where
  "sxy n a b =
     (\<Sum>i<n. (a i - (\<Sum>k<n. a k) / real n) * (b i - (\<Sum>k<n. b k) / real n))"

section \<open>logger.py\<close>

text \<open>
  What reading one file of the host yields at the moment of a capture: the file is not
  there, the read raises an \<open>OSError\<close> (a permission error, say), the text is not a
  number, or the text is a number.  The status file holds text, not a number, so for it
  only "cannot be read" and "the stripped text" are told apart.
\<close>

datatype node_read = Missing | Unreadable | Unparsable | Value real

record hardware =
  bat :: "string \<Rightarrow> node_read"
  bat_status :: "string option"
  thermal :: "string \<Rightarrow> node_read"
  clock :: string

text \<open>
  The fields of \<open>PowerStationLogger\<close> that change or are read after construction:
  the path of the thermal source found at start-up (if any), the status remembered
  from earlier iterations, and the rows appended to the log so far.
\<close>

record logger =
  thermal_zone :: "string option"
  last_status :: "string option"
  rows :: "telemetry list"

text \<open>The state after \<open>__init__\<close>, for the thermal source that discovery returned.\<close>

definition init_logger :: "string option \<Rightarrow> logger" where
  "init_logger tz = \<lparr>thermal_zone = tz, last_status = None, rows = []\<rparr>"

text \<open>
  \<open>_read_sysfs\<close>: a missing file gives 0.0, and every exception raised inside the
  \<open>try\<close> block (by the read, by \<open>float\<close>, by the division) gives 0.0 as well.
  \<open>Value v\<close> is the double that \<open>float\<close> made of the text; the division by the
  scale is a division of doubles.
\<close>

definition read_sysfs :: "hardware \<Rightarrow> string \<Rightarrow> real \<Rightarrow> real" where
  "read_sysfs hw node scale =
     (case bat hw node of
        Missing \<Rightarrow> 0
      | Unreadable \<Rightarrow> 0
      | Unparsable \<Rightarrow> 0
      | Value v \<Rightarrow> (if scale = 0 then 0 else fdiv v scale))"

fun read_val_fallback :: "hardware \<Rightarrow> string list \<Rightarrow> real \<Rightarrow> real" where
  "read_val_fallback hw [] scale = 0"
| "read_val_fallback hw (node # nodes) scale =
     (let val = read_sysfs hw node scale
      in if 0 < val then val else read_val_fallback hw nodes scale)"

text \<open>\<open>float(self.thermal_zone.read_text().strip())\<close>, outside any \<open>try\<close>.\<close>

definition read_thermal :: "hardware \<Rightarrow> string \<Rightarrow> py_error + real" where
  "read_thermal hw path =
     (case thermal hw path of
        Missing \<Rightarrow> Inl OSError
      | Unreadable \<Rightarrow> Inl OSError
      | Unparsable \<Rightarrow> Inl ValueError
      | Value v \<Rightarrow> Inr v)"

text \<open>\<open>(self.bat_path / "status").read_text().strip()\<close>, outside any \<open>try\<close>.\<close>

definition read_status :: "hardware \<Rightarrow> py_error + string" where
  "read_status hw = (case bat_status hw of None \<Rightarrow> Inl OSError | Some s \<Rightarrow> Inr s)"

definition capture_telemetry :: "logger \<Rightarrow> hardware \<Rightarrow> py_error + telemetry" where
  "capture_telemetry lg hw =
     (let volts = read_sysfs hw ''voltage_now'' 1000000;
          amps = read_sysfs hw ''current_now'' 1000000;
          power0 = read_sysfs hw ''power_now'' 1000000;
          power = (if power0 = 0 \<and> fmul volts amps \<noteq> 0 then fmul volts amps else power0)
      in case (case thermal_zone lg of
                 None \<Rightarrow> Inr 0
               | Some path \<Rightarrow>
                   (case read_thermal hw path of
                      Inl e \<Rightarrow> Inl e
                    | Inr t \<Rightarrow> Inr (if 1000 < t then fdiv t 1000 else fdiv t 10))) of
           Inl e \<Rightarrow> Inl e
         | Inr temp_raw \<Rightarrow>
             (case read_status hw of
                Inl e \<Rightarrow> Inl e
              | Inr st \<Rightarrow>
                  Inr \<lparr>timestamp = clock hw,
                       pct = trunc (read_sysfs hw ''capacity'' 1),
                       status = st,
                       voltage_v = f64_round volts 3,
                       current_a = f64_round amps 3,
                       power_w = f64_round power 2,
                       temp_c = f64_round temp_raw 1,
                       energy_wh = read_sysfs hw ''energy_now'' 1000000,
                       energy_full_wh =
                         read_val_fallback hw [''energy_full'', ''charge_full''] 1000000,
                       energy_design_wh =
                         read_val_fallback hw
                           [''energy_full_design'', ''charge_full_design''] 1000000,
                       cycles = trunc (read_sysfs hw ''cycle_count'' 1),
                       charge_rate_w =
                         (if st = ''Charging'' then f64_round (fmul volts amps) 2
                          else f64_round (- fmul volts amps) 2)\<rparr>))"

text \<open>
  The adaptive sleep of \<open>run\<close>: the condition of the \<open>if\<close>, the interval chosen and
  the status remembered afterwards.
\<close>

definition high_res :: "string option \<Rightarrow> string \<Rightarrow> real \<Rightarrow> bool" where
  "high_res prev st p \<longleftrightarrow> Some st \<noteq> prev \<or> 15 < \<bar>p\<bar>"

definition sleep_time :: "string option \<Rightarrow> string \<Rightarrow> real \<Rightarrow> nat" where
  "sleep_time prev st p = (if high_res prev st p then 2 else 10)"

definition remember :: "string option \<Rightarrow> string \<Rightarrow> real \<Rightarrow> string option" where
  "remember prev st p = (if high_res prev st p then Some st else prev)"

text \<open>
  One pass through the body of \<open>while True\<close>: capture, append the row, choose the
  interval.  An exception of the capture leaves the loop (\<open>run\<close> catches only
  \<open>KeyboardInterrupt\<close>).  Writing the row to the file is taken to succeed.
\<close>

definition run_iteration :: "logger \<Rightarrow> hardware \<Rightarrow> py_error + logger \<times> nat" where
  "run_iteration lg hw =
     (case capture_telemetry lg hw of
        Inl e \<Rightarrow> Inl e
      | Inr data \<Rightarrow>
          Inr (lg\<lparr>rows := rows lg @ [data],
                  last_status := remember (last_status lg) (status data) (power_w data)\<rparr>,
               sleep_time (last_status lg) (status data) (power_w data)))"

text \<open>
  The loop over the successive states of the hardware, one per iteration, until the
  interrupt; the result is the final state with the intervals slept, or the exception
  that ended the loop.
\<close>

fun run :: "logger \<Rightarrow> hardware list \<Rightarrow> py_error + logger \<times> nat list" where
  "run lg [] = Inr (lg, [])"
| "run lg (hw # hws) =
     (case run_iteration lg hw of
        Inl e \<Rightarrow> Inl e
      | Inr (lg', t) \<Rightarrow>
          (case run lg' hws of
             Inl e \<Rightarrow> Inl e
           | Inr (lg'', ts) \<Rightarrow> Inr (lg'', t # ts)))"

section \<open>Example states of the hardware\<close>

definition tz0 :: string where
  "tz0 = ''/sys/class/thermal/thermal_zone0/temp''"

text \<open>
  A battery drawing 6 W: some nodes are missing, unreadable or garbled, the status and
  the thermal source are readable.
\<close>

definition hw_idle :: hardware where
  "hw_idle =
     \<lparr>bat = (\<lambda>node.
               if node = ''voltage_now'' then Value 12000000
               else if node = ''current_now'' then Value 500000
               else if node = ''capacity'' then Value 80
               else if node = ''energy_full'' then Value 45000000
               else if node = ''charge_full_design'' then Value 50000000
               else if node = ''cycle_count'' then Unparsable
               else if node = ''energy_now'' then Unreadable
               else Missing),
      bat_status = Some ''Discharging'',
      thermal = (\<lambda>path. if path = tz0 then Value 36500 else Missing),
      clock = ''2024-01-01T00:00:00''\<rparr>"

definition row_idle :: telemetry where
  "row_idle =
     \<lparr>timestamp = ''2024-01-01T00:00:00'', pct = 80, status = ''Discharging'',
      voltage_v = 12, current_a = 1 / 2, power_w = 6, temp_c = 365 / 10,
      energy_wh = 0, energy_full_wh = 45, energy_design_wh = 50,
      cycles = 0, charge_rate_w = - 6\<rparr>"

text \<open>The same battery when the text of the thermal source is not a number.\<close>

definition hw_garbled :: hardware where
  "hw_garbled = hw_idle\<lparr>thermal := (\<lambda>path. Unparsable)\<rparr>"

text \<open>A kernel that reports the current of a discharging battery as a negative number.\<close>

definition hw_negative :: hardware where
  "hw_negative =
     hw_idle\<lparr>bat := (\<lambda>node.
               if node = ''voltage_now'' then Value 12000000
               else if node = ''current_now'' then Value (- 1500000)
               else Missing)\<rparr>"

text \<open>A charging battery whose current node cannot be read.\<close>

definition hw_no_current :: hardware where
  "hw_no_current =
     hw_idle\<lparr>bat := (\<lambda>node.
               if node = ''voltage_now'' then Value 12000000
               else if node = ''current_now'' then Unreadable
               else Missing),
             bat_status := Some ''Charging''\<rparr>"

text \<open>
  A battery charging at 3 V and 5 mA: the product of the two doubles lies just below
  0.015.
\<close>

definition hw_trickle :: hardware where
  "hw_trickle =
     hw_idle\<lparr>bat := (\<lambda>node.
               if node = ''voltage_now'' then Value 3000000
               else if node = ''current_now'' then Value 5000
               else Missing),
             bat_status := Some ''Charging''\<rparr>"

text \<open>
  Two charging batteries whose readings lie next to a decimal tie: 12.0005 V at
  0.6005 A with a power node of 15.005 W, and 10 V at 0.6005 A.
\<close>

definition hw_tie :: hardware where
  "hw_tie =
     hw_idle\<lparr>bat := (\<lambda>node.
               if node = ''voltage_now'' then Value 12000500
               else if node = ''current_now'' then Value 600500
               else if node = ''power_now'' then Value 15005000
               else Missing),
             bat_status := Some ''Charging''\<rparr>"

definition hw_ten :: hardware where
  "hw_ten =
     hw_idle\<lparr>bat := (\<lambda>node.
               if node = ''voltage_now'' then Value 10000000
               else if node = ''current_now'' then Value 600500
               else Missing),
             bat_status := Some ''Charging''\<rparr>"

section \<open>Example logs\<close>

definition mk_row :: "int \<Rightarrow> real \<Rightarrow> real \<Rightarrow> real \<Rightarrow> real \<Rightarrow> int \<Rightarrow> telemetry" where
  "mk_row p v t full design c =
     \<lparr>timestamp = ''2024-01-01T00:00:00'', pct = p, status = ''Discharging'',
      voltage_v = v, current_a = 1 / 2, power_w = 6, temp_c = t,
      energy_wh = 30, energy_full_wh = full, energy_design_wh = design,
      cycles = c, charge_rate_w = - 6\<rparr>"

text \<open>
  Five rows of a worn battery: the charge drops, the voltage moves, the third row is
  hot (46 degrees), the latest row has 41 degrees and 37.5 Wh left of 50 Wh.
\<close>

definition df_worn :: "telemetry list" where
  "df_worn =
     [mk_row 83 10 30 45 50 100, mk_row 80 10 30 45 50 100, mk_row 80 12 46 45 50 100,
      mk_row 80 14 30 45 50 100, mk_row 80 14 41 (75 / 2) 50 100]"

text \<open>Two rows of a healthy battery at rest.\<close>

definition df_fresh :: "telemetry list" where
  "df_fresh = [mk_row 80 12 30 45 50 100, mk_row 80 12 30 45 50 100]"

text \<open>Three rows of a battery that drains, and two rows of one that charges.\<close>

definition df_drain :: "telemetry list" where
  "df_drain = [mk_row 90 12 30 45 50 100, mk_row 88 12 30 45 50 100, mk_row 85 12 30 45 50 100]"

definition df_charge :: "telemetry list" where
  "df_charge = [mk_row 50 12 30 45 50 100, mk_row 53 12 30 45 50 100]"

text \<open>
  Two logs on which the rounding of the doubles shows: 23 Wh left of 160 Wh (a quotient
  just below 14.375 per cent), and 2 Wh left of 3 Wh after 1000 cycles (a sum just
  below 60).
\<close>

definition df_aged :: "telemetry list" where
  "df_aged = [mk_row 80 12 30 23 160 100, mk_row 80 12 30 23 160 100]"

definition df_third :: "telemetry list" where
  "df_third = [mk_row 80 12 30 2 3 1000, mk_row 80 12 30 2 3 1000]"

definition df_faded :: "telemetry list" where
  "df_faded = [mk_row 80 12 30 19 30 700, mk_row 80 12 30 19 30 700]"

section \<open>Rounding\<close>

lemma round_half_even_le: "x \<le> of_int k \<Longrightarrow> round_half_even x \<le> k"
proof -
  assume x: "x \<le> of_int k"
  then have f: "\<lfloor>x\<rfloor> \<le> k" by (simp add: floor_le_iff)
  show ?thesis
  proof (cases "x - of_int \<lfloor>x\<rfloor> < 1 / 2")
    case True
    then show ?thesis using f by (simp add: round_half_even_def Let_def)
  next
    case False
    then have "of_int \<lfloor>x\<rfloor> \<le> x - 1 / 2" by simp
    with x have "(of_int \<lfloor>x\<rfloor> :: real) < of_int k" by linarith
    then have "\<lfloor>x\<rfloor> < k" by (simp only: of_int_less_iff)
    then have "\<lfloor>x\<rfloor> + 1 \<le> k" by linarith
    then show ?thesis using f by (simp add: round_half_even_def Let_def)
  qed
qed

lemma round_half_even_ge: "of_int k \<le> x \<Longrightarrow> k \<le> round_half_even x"
proof -
  assume "of_int k \<le> x"
  then have "k \<le> \<lfloor>x\<rfloor>" by (simp add: le_floor_iff)
  then show ?thesis by (auto simp: round_half_even_def Let_def)
qed

lemma round_half_even_of_int: "round_half_even (of_int k) = k"
  by (simp add: round_half_even_def)

lemma round_half_even_nonneg: "0 \<le> x \<Longrightarrow> 0 \<le> round_half_even x"
  using round_half_even_ge [of 0 x] by simp

lemma round_half_even_nonpos: "x \<le> 0 \<Longrightarrow> round_half_even x \<le> 0"
  using round_half_even_le [of x 0] by simp

lemma py_round_le: "x \<le> of_int k \<Longrightarrow> py_round x n \<le> of_int k"
proof -
  assume "x \<le> of_int k"
  then have "x * 10 ^ n \<le> of_int (k * 10 ^ n)" by simp
  then have "round_half_even (x * 10 ^ n) \<le> k * 10 ^ n" by (rule round_half_even_le)
  then have "(of_int (round_half_even (x * 10 ^ n)) :: real) \<le> of_int (k * 10 ^ n)"
    by (simp only: of_int_le_iff)
  then show ?thesis by (simp add: py_round_def field_simps)
qed

lemma py_round_ge: "of_int k \<le> x \<Longrightarrow> of_int k \<le> py_round x n"
proof -
  assume "of_int k \<le> x"
  then have "of_int (k * 10 ^ n) \<le> x * 10 ^ n" by simp
  then have "k * 10 ^ n \<le> round_half_even (x * 10 ^ n)" by (rule round_half_even_ge)
  then have "(of_int (k * 10 ^ n) :: real) \<le> of_int (round_half_even (x * 10 ^ n))"
    by (simp only: of_int_le_iff)
  then show ?thesis by (simp add: py_round_def field_simps)
qed

lemma py_round_of_int: "py_round (of_int k) n = of_int k"
  using py_round_le [of "of_int k" k n] py_round_ge [of k "of_int k" n] by simp

lemma py_round_nonneg: "0 \<le> x \<Longrightarrow> 0 \<le> py_round x n"
  using py_round_ge [of 0 x n] by simp

lemma py_round_nonpos: "x \<le> 0 \<Longrightarrow> py_round x n \<le> 0"
  using py_round_le [of x 0 n] by simp

lemma py_round_neg: "x \<le> - 1 \<Longrightarrow> py_round x n < 0"
  using py_round_le [of x "- 1" n] by simp

lemma py_round_pos: "1 \<le> x \<Longrightarrow> 0 < py_round x n"
  using py_round_ge [of 1 x n] by simp

lemma py_round_zero: "py_round 0 n = 0"
  using py_round_of_int [of 0 n] by simp

section \<open>Doubles\<close>

lemmas f64_eval =
  bexp_def fround_def fadd_def fsub_def fmul_def fdiv_def round_half_even_def
  compute_floorlog py_round_def f64_round_def np_round_def

lemma fround_zero: "fround 0 = 0"
  by (simp add: fround_def)

lemma fround_nonneg: "0 \<le> x \<Longrightarrow> 0 \<le> fround x"
proof -
  assume x: "0 \<le> x"
  have q: "0 < (2 :: real) powi (bexp x - 52)" by simp
  then have "0 \<le> x / 2 powi (bexp x - 52)" using x by simp
  then have "0 \<le> round_half_even (x / 2 powi (bexp x - 52))"
    by (rule round_half_even_nonneg)
  then show ?thesis using q by (simp add: fround_def)
qed

lemma fround_nonpos: "x \<le> 0 \<Longrightarrow> fround x \<le> 0"
proof -
  assume x: "x \<le> 0"
  have q: "0 < (2 :: real) powi (bexp x - 52)" by simp
  then have "x / 2 powi (bexp x - 52) \<le> 0" using x by (simp add: divide_le_0_iff)
  then have "round_half_even (x / 2 powi (bexp x - 52)) \<le> 0"
    by (rule round_half_even_nonpos)
  then show ?thesis using q by (simp add: fround_def mult_le_0_iff)
qed

text \<open>
  \<open>bexp\<close> is the binary exponent, so \<open>fround\<close> rounds to a multiple of the spacing at
  most half a spacing away: a relative error of at most \<open>2\<close> to the power \<open>-53\<close>.
\<close>

lemma bexp_bounds:
  assumes "x \<noteq> 0"
  shows "2 powi bexp x \<le> \<bar>x\<bar> \<and> \<bar>x\<bar> < 2 powi (bexp x + 1)"
proof (cases "1 \<le> \<bar>x\<bar>")
  case True
  define n where "n = nat \<lfloor>\<bar>x\<bar>\<rfloor>"
  define k where "k = floorlog 2 n"
  from True have n1: "1 \<le> n" by (simp add: n_def le_nat_floor)
  then have n0: "0 < n" by simp
  from floorlog_bounds [OF n0, of 2]
  have lo: "2 ^ (k - 1) \<le> n" and hi: "n < 2 ^ k" by (simp_all add: k_def)
  have k1: "1 \<le> k"
  proof (rule ccontr)
    assume "\<not> 1 \<le> k"
    then have "k = 0" by simp
    with hi n1 show False by simp
  qed
  have e: "bexp x = int (k - 1)" using True k1 by (simp add: bexp_def n_def k_def)
  have e1: "bexp x + 1 = int k" using e k1 by simp
  have nx: "real n \<le> \<bar>x\<bar>" and xn: "\<bar>x\<bar> < real n + 1"
    using True by (simp_all add: n_def)
  have "real (2 ^ (k - 1)) \<le> real n" using lo by (simp only: of_nat_le_iff)
  then have "(2 :: real) ^ (k - 1) \<le> real n" by simp
  then have "(2 :: real) ^ (k - 1) \<le> \<bar>x\<bar>" using nx by (rule order_trans)
  then have a: "(2 :: real) powi bexp x \<le> \<bar>x\<bar>" by (simp add: e)
  from hi have "n + 1 \<le> 2 ^ k" by simp
  then have "real (n + 1) \<le> real (2 ^ k)" by (simp only: of_nat_le_iff)
  then have "real n + 1 \<le> 2 ^ k" by simp
  with xn have "\<bar>x\<bar> < (2 :: real) ^ k" by (rule less_le_trans)
  then have b: "\<bar>x\<bar> < (2 :: real) powi (bexp x + 1)" by (simp add: e1)
  from a b show ?thesis by blast
next
  case False
  define y where "y = 1 / \<bar>x\<bar>"
  define m where "m = nat \<lceil>y\<rceil>"
  define j where "j = floorlog 2 (m - 1)"
  from assms have x0: "0 < \<bar>x\<bar>" by simp
  with False have y1: "1 < y" by (simp add: y_def)
  then have "2 \<le> \<lceil>y\<rceil>" by linarith
  then have m2: "2 \<le> m" unfolding m_def by linarith
  then have p: "0 < m - 1" by simp
  from floorlog_bounds [OF p, of 2]
  have lo: "2 ^ (j - 1) \<le> m - 1" and hi: "m - 1 < 2 ^ j" by (simp_all add: j_def)
  have j1: "1 \<le> j"
  proof (rule ccontr)
    assume "\<not> 1 \<le> j"
    then have "j = 0" by simp
    with hi p show False by simp
  qed
  have e: "bexp x = - int j" using False by (simp add: bexp_def y_def m_def j_def)
  have ym: "y \<le> real m" and my: "real m - 1 < y"
    using y1 by (simp_all add: m_def) linarith+
  from hi have "m \<le> 2 ^ j" by simp
  then have "real m \<le> real (2 ^ j)" by (simp only: of_nat_le_iff)
  then have "real m \<le> 2 ^ j" by simp
  with ym have yj: "y \<le> 2 ^ j" by (rule order_trans)
  have "real (2 ^ (j - 1)) \<le> real (m - 1)" using lo by (simp only: of_nat_le_iff)
  then have "(2 :: real) ^ (j - 1) \<le> real m - 1" using m2 by (simp add: of_nat_diff)
  then have jy: "(2 :: real) ^ (j - 1) < y" using my by (rule le_less_trans)
  have a: "(2 :: real) powi bexp x \<le> \<bar>x\<bar>"
  proof -
    from yj x0 have "1 \<le> 2 ^ j * \<bar>x\<bar>" by (simp add: y_def field_simps)
    then have "inverse (2 ^ j) \<le> \<bar>x\<bar>" by (simp add: field_simps)
    then show ?thesis by (simp add: e power_int_minus power_inverse)
  qed
  have b: "\<bar>x\<bar> < (2 :: real) powi (bexp x + 1)"
  proof -
    from jy x0 have "2 ^ (j - 1) * \<bar>x\<bar> < 1" by (simp add: y_def field_simps)
    then have "\<bar>x\<bar> < inverse (2 ^ (j - 1))" by (simp add: field_simps)
    moreover have "bexp x + 1 = - int (j - 1)" using e j1 by simp
    ultimately show ?thesis by (simp add: power_int_minus power_inverse)
  qed
  from a b show ?thesis by blast
qed


lemma round_half_even_error: "\<bar>of_int (round_half_even y) - y\<bar> \<le> 1 / 2"
proof -
  have "of_int \<lfloor>y\<rfloor> \<le> y" and "y < of_int \<lfloor>y\<rfloor> + 1" by linarith+
  then show ?thesis by (auto simp: round_half_even_def)
qed

lemma fround_error: "\<bar>fround x - x\<bar> \<le> \<bar>x\<bar> / 2 ^ 53"
proof (cases "x = 0")
  case True
  then show ?thesis by (simp add: fround_def)
next
  case False
  define q :: real where "q = 2 powi (bexp x - 52)"
  have q: "0 < q" by (simp add: q_def)
  have "fround x - x = (of_int (round_half_even (x / q)) - x / q) * q"
    using False q by (simp add: fround_def q_def [symmetric] algebra_simps)
  then have "\<bar>fround x - x\<bar> = \<bar>of_int (round_half_even (x / q)) - x / q\<bar> * q"
    using q by (simp add: abs_mult)
  also have "\<dots> \<le> 1 / 2 * q"
    using round_half_even_error [of "x / q"] q by (simp only: mult_right_mono less_imp_le)
  finally have h: "\<bar>fround x - x\<bar> \<le> q / 2" by simp
  have "q = 2 powi bexp x / 2 ^ 52"
    by (simp add: q_def power_int_diff)
  moreover have "2 powi bexp x \<le> \<bar>x\<bar>" using bexp_bounds [OF False] by blast
  ultimately have "q \<le> \<bar>x\<bar> / 2 ^ 52" by (simp add: divide_right_mono)
  then have "q / 2 \<le> \<bar>x\<bar> / 2 ^ 53" by simp
  with h show ?thesis by linarith
qed

lemma fmul_fdiv_error:
  assumes "b \<noteq> 0"
  shows "\<bar>fmul (fdiv a b) c - a / b * c\<bar> \<le> 3 / 2 ^ 53 * \<bar>a / b * c\<bar>"
proof -
  define u :: real where "u = 1 / 2 ^ 53"
  define q where "q = a / b"
  define q' where "q' = fround q"
  have u: "0 \<le> u" "u \<le> 1" by (simp_all add: u_def)
  have e1: "\<bar>q' - q\<bar> \<le> \<bar>q\<bar> * u"
    using fround_error [of q] by (simp add: q'_def u_def)
  then have q'b: "\<bar>q'\<bar> \<le> \<bar>q\<bar> * (1 + u)" by (simp add: algebra_simps)
  have e2: "\<bar>fround (q' * c) - q' * c\<bar> \<le> \<bar>q' * c\<bar> * u"
    using fround_error [of "q' * c"] by (simp add: u_def)
  have "\<bar>q' * c\<bar> * u \<le> \<bar>q\<bar> * (1 + u) * \<bar>c\<bar> * u"
    using q'b u by (simp add: abs_mult mult_right_mono)
  with e2 have e2': "\<bar>fround (q' * c) - q' * c\<bar> \<le> \<bar>q\<bar> * \<bar>c\<bar> * ((1 + u) * u)"
    by (simp add: algebra_simps)
  have "\<bar>q' * c - q * c\<bar> = \<bar>q' - q\<bar> * \<bar>c\<bar>"
    by (simp add: abs_mult [symmetric] algebra_simps)
  also have "\<dots> \<le> \<bar>q\<bar> * u * \<bar>c\<bar>" using e1 by (simp add: mult_right_mono)
  finally have e3: "\<bar>q' * c - q * c\<bar> \<le> \<bar>q\<bar> * \<bar>c\<bar> * u" by (simp add: algebra_simps)
  have "\<bar>fround (q' * c) - q * c\<bar> \<le> \<bar>fround (q' * c) - q' * c\<bar> + \<bar>q' * c - q * c\<bar>"
    by linarith
  also have "\<dots> \<le> \<bar>q\<bar> * \<bar>c\<bar> * ((1 + u) * u) + \<bar>q\<bar> * \<bar>c\<bar> * u"
    using e2' e3 by linarith
  also have "\<dots> = \<bar>q\<bar> * \<bar>c\<bar> * ((2 + u) * u)" by (simp add: algebra_simps)
  also have "\<dots> \<le> \<bar>q\<bar> * \<bar>c\<bar> * (3 * u)"
  proof (rule mult_left_mono)
    show "(2 + u) * u \<le> 3 * u" using u by (simp add: mult_right_mono)
    show "0 \<le> \<bar>q\<bar> * \<bar>c\<bar>" by simp
  qed
  finally show ?thesis
    by (simp add: fmul_def fdiv_def q'_def q_def u_def abs_mult algebra_simps)
qed

lemma fround_six_tenths: "fround (6 / 10) = 5404319552844595 / 9007199254740992"
  by (simp add: f64_eval)

lemma fround_six_tenths_pos: "0 < fround (6 / 10)"
  by (simp add: f64_eval)

lemma fdiv_nonneg: "0 \<le> a \<Longrightarrow> 0 < b \<Longrightarrow> 0 \<le> fdiv a b"
  by (simp add: fdiv_def fround_nonneg)

lemma fmul_nonneg: "0 \<le> a \<Longrightarrow> 0 \<le> b \<Longrightarrow> 0 \<le> fmul a b"
  by (simp add: fmul_def fround_nonneg)

lemma np_round_nonneg: "0 \<le> x \<Longrightarrow> 0 \<le> np_round x n"
proof -
  assume "0 \<le> x"
  then have "0 \<le> fmul x (10 ^ n)" by (simp add: fmul_nonneg)
  then have "0 \<le> round_half_even (fmul x (10 ^ n))" by (rule round_half_even_nonneg)
  then show ?thesis by (simp add: np_round_def fdiv_nonneg)
qed

lemma f64_round_nonneg: "0 \<le> x \<Longrightarrow> 0 \<le> f64_round x n"
  by (simp add: f64_round_def fround_nonneg py_round_nonneg)

lemma f64_round_nonpos: "x \<le> 0 \<Longrightarrow> f64_round x n \<le> 0"
  by (simp add: f64_round_def fround_nonpos py_round_nonpos)

section \<open>The least-squares slope\<close>

lemma sum_list_upt_real: "(\<Sum>x\<leftarrow>map real [0..<n]. g x) = (\<Sum>i<n. g (real i))"
proof -
  have "(\<Sum>x\<leftarrow>map real [0..<n]. g x) = sum_list (map (\<lambda>i. g (real i)) [0..<n])"
    by (simp add: comp_def)
  also have "\<dots> = (\<Sum>i<n. g (real i))"
    by (simp add: interv_sum_list_conv_sum_set_nat atLeast0LessThan)
  finally show ?thesis .
qed

lemma sum_list_nth_real: "sum_list (ys :: real list) = (\<Sum>i<length ys. ys ! i)"
  by (simp add: sum_list_sum_nth atLeast0LessThan)

lemma sum_list_zip_upt:
  "(\<Sum>(x, y)\<leftarrow>zip (map real [0..<length ys]) ys. f x y) = (\<Sum>i<length ys. f (real i) (ys ! i))"
proof -
  have "(\<Sum>(x, y)\<leftarrow>zip (map real [0..<length ys]) ys. f x y) =
        (\<Sum>i = 0..<length ys. (map (\<lambda>(x, y). f x y) (zip (map real [0..<length ys]) ys)) ! i)"
    by (simp add: sum_list_sum_nth)
  also have "\<dots> = (\<Sum>i = 0..<length ys. f (real i) (ys ! i))"
    by (rule sum.cong) simp_all
  finally show ?thesis by (simp add: atLeast0LessThan)
qed

lemma ols_slope_sxy:
  "ols_slope ys = sxy (length ys) real (\<lambda>i. ys ! i) / sxy (length ys) real real"
proof -
  have mx: "mean (map real [0..<length ys]) = (\<Sum>k<length ys. real k) / real (length ys)"
    using sum_list_upt_real [of "\<lambda>x. x" "length ys"] by (simp add: mean_def)
  have my: "mean ys = (\<Sum>k<length ys. ys ! k) / real (length ys)"
    by (simp add: mean_def sum_list_nth_real)
  show ?thesis
    unfolding ols_slope_def Let_def sxy_def mx my sum_list_zip_upt sum_list_upt_real
    by (simp add: power2_eq_square)
qed

lemma sxy_expand:
  assumes "0 < n"
  shows "real n * sxy n a b = real n * (\<Sum>i<n. a i * b i) - (\<Sum>i<n. a i) * (\<Sum>i<n. b i)"
proof -
  define A where "A = (\<Sum>i<n. a i)"
  define B where "B = (\<Sum>i<n. b i)"
  define S where "S = (\<Sum>i<n. a i * b i)"
  define c where "c = A / real n"
  define d where "d = B / real n"
  have N: "real n \<noteq> 0" using assms by simp
  have "sxy n a b = (\<Sum>i<n. (a i * b i - a i * d - c * b i + c * d))"
    unfolding sxy_def A_def [symmetric] B_def [symmetric] c_def [symmetric] d_def [symmetric]
    by (rule sum.cong) (simp_all add: algebra_simps)
  also have "\<dots> = S - A * d - c * B + real n * (c * d)"
    by (simp add: sum.distrib sum_subtractf sum_distrib_left [symmetric]
        sum_distrib_right [symmetric] A_def [symmetric] B_def [symmetric] S_def [symmetric])
  finally have e: "sxy n a b = S - A * d - c * B + real n * (c * d)" .
  have c: "real n * c = A" and d: "real n * d = B" using N by (simp_all add: c_def d_def)
  have "real n * sxy n a b =
        real n * S - A * (real n * d) - (real n * c) * B + (real n * c) * (real n * d)"
    by (simp add: e algebra_simps)
  then have "real n * sxy n a b = real n * S - A * B" by (simp add: c d)
  then show ?thesis by (simp add: A_def B_def S_def)
qed

lemma double_sum_expand:
  "(\<Sum>i<n. \<Sum>j<n. (a i - a j) * (b i - b j)) =
     2 * (real n * (\<Sum>i<n. a i * b i) - (\<Sum>i<n. a i) * (\<Sum>i<n. (b i :: real)))"
proof -
  define A where "A = (\<Sum>i<n. a i)"
  define B where "B = (\<Sum>i<n. b i)"
  define S where "S = (\<Sum>i<n. a i * b i)"
  have inner: "(\<Sum>j<n. (a i - a j) * (b i - b j)) = real n * (a i * b i) - a i * B - A * b i + S"
    for i
  proof -
    have "(\<Sum>j<n. (a i - a j) * (b i - b j)) =
          (\<Sum>j<n. (a i * b i - a i * b j - a j * b i + a j * b j))"
      by (rule sum.cong) (simp_all add: algebra_simps)
    also have "\<dots> = real n * (a i * b i) - a i * B - A * b i + S"
      by (simp add: sum.distrib sum_subtractf sum_distrib_left [symmetric]
        sum_distrib_right [symmetric] A_def B_def S_def)
    finally show ?thesis .
  qed
  have "(\<Sum>i<n. \<Sum>j<n. (a i - a j) * (b i - b j)) =
        (\<Sum>i<n. real n * (a i * b i) - a i * B - A * b i + S)"
    by (simp add: inner)
  also have "\<dots> = real n * S - A * B - A * B + real n * S"
    by (simp add: sum.distrib sum_subtractf sum_distrib_left [symmetric]
        sum_distrib_right [symmetric] A_def [symmetric] B_def [symmetric] S_def [symmetric])
  finally show ?thesis by (simp add: A_def B_def S_def)
qed

lemma sxy_double:
  "0 < n \<Longrightarrow> 2 * real n * sxy n a b = (\<Sum>i<n. \<Sum>j<n. (a i - a j) * (b i - b j))"
  using sxy_expand [of n a b] by (simp add: double_sum_expand)


lemma sxy_real_pos:
  assumes "2 \<le> n"
  shows "0 < sxy n real real"
proof -
  have n: "0 < n" using assms by simp
  have inner: "0 < (\<Sum>j<n. (real 0 - real j) * (real 0 - real j))"
  proof (rule sum_pos2)
    show "finite {..<n}" by simp
    show "1 \<in> {..<n}" using assms by simp
    show "0 < (real 0 - real 1) * (real 0 - real 1)" by simp
    show "0 \<le> (real 0 - real j) * (real 0 - real j)" for j by simp
  qed
  have "0 < (\<Sum>i<n. \<Sum>j<n. (real i - real j) * (real i - real j))"
  proof (rule sum_pos2)
    show "finite {..<n}" by simp
    show "0 \<in> {..<n}" using n by simp
    show "0 < (\<Sum>j<n. (real 0 - real j) * (real 0 - real j))" by (rule inner)
    show "0 \<le> (\<Sum>j<n. (real i - real j) * (real i - real j))" for i
      by (rule sum_nonneg) simp
  qed
  then have "0 < 2 * real n * sxy n real real" by (simp only: sxy_double [OF n])
  then show ?thesis using n by (simp add: zero_less_mult_iff)
qed

lemma sxy_upper:
  assumes n: "0 < n"
    and b: "\<And>i j. i < j \<Longrightarrow> j < n \<Longrightarrow> b j - b i \<le> c * (real j - real i)"
  shows "sxy n real b \<le> c * sxy n real real"
proof -
  have tm: "(real i - real j) * (b i - b j) - c * ((real i - real j) * (real i - real j)) \<le> 0"
    if "i < n" "j < n" for i j
  proof -
    have eq: "(real i - real j) * (b i - b j) - c * ((real i - real j) * (real i - real j)) =
          (real i - real j) * ((b i - b j) - c * (real i - real j))"
      by (simp add: algebra_simps)
    consider "i < j" | "i = j" | "j < i" by linarith
    then show ?thesis
    proof cases
      case 1
      from b [OF 1 that(2)] have "0 \<le> (b i - b j) - c * (real i - real j)"
        by (simp add: algebra_simps)
      moreover have "real i - real j \<le> 0" using 1 by simp
      ultimately show ?thesis unfolding eq by (rule mult_nonpos_nonneg [rotated])
    next
      case 2
      then show ?thesis by simp
    next
      case 3
      from b [OF 3 that(1)] have "(b i - b j) - c * (real i - real j) \<le> 0"
        by (simp add: algebra_simps)
      moreover have "0 \<le> real i - real j" using 3 by simp
      ultimately show ?thesis unfolding eq by (rule mult_nonneg_nonpos [rotated])
    qed
  qed
  have "2 * real n * sxy n real b - c * (2 * real n * sxy n real real) =
        (\<Sum>i<n. \<Sum>j<n. ((real i - real j) * (b i - b j)
             - c * ((real i - real j) * (real i - real j))))"
    unfolding sxy_double [OF n]
    by (simp add: sum_subtractf sum_distrib_left)
  also have "\<dots> \<le> 0"
    by (intro sum_nonpos tm) simp_all
  finally have "2 * real n * (sxy n real b - c * sxy n real real) \<le> 0"
    by (simp add: algebra_simps)
  then show ?thesis using n by (simp add: mult_le_0_iff)
qed

lemma sxy_uminus: "sxy n a (\<lambda>i. - b i) = - sxy n a b"
proof -
  have "sxy n a (\<lambda>i. - b i) =
        (\<Sum>i<n. - ((a i - (\<Sum>k<n. a k) / real n) * (b i - (\<Sum>k<n. b k) / real n)))"
    unfolding sxy_def by (rule sum.cong) (simp_all add: sum_negf algebra_simps)
  also have "\<dots> = - sxy n a b" by (simp only: sum_negf sxy_def)
  finally show ?thesis .
qed

lemma sxy_lower:
  assumes n: "0 < n"
    and b: "\<And>i j. i < j \<Longrightarrow> j < n \<Longrightarrow> c * (real j - real i) \<le> b j - b i"
  shows "c * sxy n real real \<le> sxy n real b"
proof -
  have "sxy n real (\<lambda>i. - b i) \<le> (- c) * sxy n real real"
  proof (rule sxy_upper [OF n])
    fix i j assume "i < j" "j < n"
    from b [OF this] show "- b j - - b i \<le> - c * (real j - real i)" by simp
  qed
  then show ?thesis by (simp add: sxy_uminus)
qed

lemma ols_slope_le:
  assumes "2 \<le> length ys"
    and "\<And>i j. i < j \<Longrightarrow> j < length ys \<Longrightarrow> ys ! j - ys ! i \<le> c * (real j - real i)"
  shows "ols_slope ys \<le> c"
proof -
  have n: "0 < length ys" using assms(1) by linarith
  have "sxy (length ys) real (\<lambda>i. ys ! i) \<le> c * sxy (length ys) real real"
    by (rule sxy_upper [OF n]) (rule assms(2))
  then show ?thesis
    using sxy_real_pos [OF assms(1)] by (simp add: ols_slope_sxy pos_divide_le_eq)
qed

lemma ols_slope_ge:
  assumes "2 \<le> length ys"
    and "\<And>i j. i < j \<Longrightarrow> j < length ys \<Longrightarrow> c * (real j - real i) \<le> ys ! j - ys ! i"
  shows "c \<le> ols_slope ys"
proof -
  have n: "0 < length ys" using assms(1) by linarith
  have "c * sxy (length ys) real real \<le> sxy (length ys) real (\<lambda>i. ys ! i)"
    by (rule sxy_lower [OF n]) (rule assms(2))
  then show ?thesis
    using sxy_real_pos [OF assms(1)] by (simp add: ols_slope_sxy pos_le_divide_eq)
qed


lemma decreasing_gap:
  fixes ps :: "int list"
  assumes "sorted_wrt (\<lambda>a b. b < a) ps"
  shows "i \<le> j \<Longrightarrow> j < length ps \<Longrightarrow> ps ! j + int (j - i) \<le> ps ! i"
proof (induction j)
  case 0
  then show ?case by simp
next
  case (Suc j)
  show ?case
  proof (cases "i = Suc j")
    case True
    then show ?thesis by simp
  next
    case False
    with Suc.prems have ij: "i \<le> j" and j: "j < length ps" by simp_all
    from assms Suc.prems(2) have "ps ! Suc j < ps ! j"
      by (simp add: sorted_wrt_iff_nth_less)
    with Suc.IH [OF ij j] ij show ?thesis by (simp add: Suc_diff_le)
  qed
qed

lemma increasing_gap:
  fixes ps :: "int list"
  assumes "sorted_wrt (\<lambda>a b. a < b) ps"
  shows "i \<le> j \<Longrightarrow> j < length ps \<Longrightarrow> ps ! i + int (j - i) \<le> ps ! j"
proof (induction j)
  case 0
  then show ?case by simp
next
  case (Suc j)
  show ?case
  proof (cases "i = Suc j")
    case True
    then show ?thesis by simp
  next
    case False
    with Suc.prems have ij: "i \<le> j" and j: "j < length ps" by simp_all
    from assms Suc.prems(2) have "ps ! j < ps ! Suc j"
      by (simp add: sorted_wrt_iff_nth_less)
    with Suc.IH [OF ij j] ij show ?thesis by (simp add: Suc_diff_le)
  qed
qed

lemma ols_slope_decreasing:
  fixes ps :: "int list"
  assumes "2 \<le> length ps" and "sorted_wrt (\<lambda>a b. b < a) ps"
  shows "ols_slope (map real_of_int ps) \<le> - 1"
proof (rule ols_slope_le)
  show "2 \<le> length (map real_of_int ps)" using assms(1) by simp
next
  fix i j assume ij: "i < j" and j: "j < length (map real_of_int ps)"
  then have j': "j < length ps" and i': "i < length ps" by simp_all
  from decreasing_gap [OF assms(2), of i j] ij j'
  have "ps ! j + int (j - i) \<le> ps ! i" by simp
  then have "real_of_int (ps ! j) + real (j - i) \<le> real_of_int (ps ! i)"
    by (metis of_int_add of_int_le_iff of_int_of_nat_eq)
  then show "map real_of_int ps ! j - map real_of_int ps ! i \<le> - 1 * (real j - real i)"
    using ij i' j' by simp
qed

lemma ols_slope_increasing:
  fixes ps :: "int list"
  assumes "2 \<le> length ps" and "sorted_wrt (\<lambda>a b. a < b) ps"
  shows "1 \<le> ols_slope (map real_of_int ps)"
proof (rule ols_slope_ge)
  show "2 \<le> length (map real_of_int ps)" using assms(1) by simp
next
  fix i j assume ij: "i < j" and j: "j < length (map real_of_int ps)"
  then have j': "j < length ps" and i': "i < length ps" by simp_all
  from increasing_gap [OF assms(2), of i j] ij j'
  have "ps ! i + int (j - i) \<le> ps ! j" by simp
  then have "real_of_int (ps ! i) + real (j - i) \<le> real_of_int (ps ! j)"
    by (metis of_int_add of_int_le_iff of_int_of_nat_eq)
  then show "1 * (real j - real i) \<le> map real_of_int ps ! j - map real_of_int ps ! i"
    using ij i' j' by simp
qed

lemma ols_slope_constant:
  assumes "2 \<le> length ys" and "\<And>y. y \<in> set ys \<Longrightarrow> y = c"
  shows "ols_slope ys = 0"
proof -
  have eq: "ys ! j - ys ! i = 0" if "i < j" "j < length ys" for i j
  proof -
    from that have "ys ! i \<in> set ys" "ys ! j \<in> set ys" by simp_all
    then have "ys ! i = c" "ys ! j = c" by (auto dest: assms(2))
    then show ?thesis by simp
  qed
  have "ols_slope ys \<le> 0" by (rule ols_slope_le [OF assms(1)]) (simp add: eq)
  moreover have "0 \<le> ols_slope ys" by (rule ols_slope_ge [OF assms(1)]) (simp add: eq)
  ultimately show ?thesis by simp
qed

lemma ols_slope_two: "ols_slope [a, b] = b - a"
  apply (simp add: ols_slope_def mean_def Let_def)
  apply (simp add: power2_eq_square)
  apply (simp add: field_simps)
  done

lemma length_tail: "length (tail n xs) = min n (length xs)"
  by (simp add: tail_def)


lemma sum_centered:
  assumes "0 < n"
  shows "(\<Sum>i<n. (a i - (\<Sum>k<n. a k) / real n)) = (0 :: real)"
  using assms by (simp add: sum_subtractf)

lemma ols_sq_err:
  assumes "2 \<le> length ys"
  shows "sq_err ys a b =
     sq_err ys (ols_slope ys) (ols_intercept ys) +
     (ols_slope ys - a) ^ 2 * sxy (length ys) real real +
     real (length ys) * (mean ys - a * mean (map real [0..<length ys]) - b) ^ 2"
proof -
  define n where "n = length ys"
  define xbar where "xbar = (\<Sum>k<n. real k) / real n"
  define ybar where "ybar = (\<Sum>k<n. ys ! k) / real n"
  define u where "u i = real i - xbar" for i
  define v where "v i = ys ! i - ybar" for i
  define m where "m = ols_slope ys"
  define e where "e i = v i - m * u i" for i
  define p where "p = m - a"
  define q where "q = ybar - a * xbar - b"
  have n: "0 < n" using assms unfolding n_def by linarith
  have U2: "sxy n real real = (\<Sum>i<n. u i * u i)"
    by (simp add: sxy_def u_def xbar_def)
  have UV: "sxy n real (\<lambda>i. ys ! i) = (\<Sum>i<n. u i * v i)"
    by (simp add: sxy_def u_def v_def xbar_def ybar_def)
  have pos: "0 < (\<Sum>i<n. u i * u i)"
  proof -
    have "2 \<le> n" using assms by (simp add: n_def)
    from sxy_real_pos [OF this] show ?thesis by (simp only: U2)
  qed
  have m: "m * (\<Sum>i<n. u i * u i) = (\<Sum>i<n. u i * v i)"
    using pos by (simp add: m_def ols_slope_sxy n_def [symmetric] U2 UV)
  have U1: "(\<Sum>i<n. u i) = 0"
    unfolding u_def xbar_def by (rule sum_centered [OF n])
  have V1: "(\<Sum>i<n. v i) = 0"
    unfolding v_def ybar_def by (rule sum_centered [OF n])
  have E1: "(\<Sum>i<n. e i) = 0"
    by (simp add: e_def sum_subtractf sum_distrib_left [symmetric] U1 V1)
  have "(\<Sum>i<n. e i * u i) = (\<Sum>i<n. u i * v i) - m * (\<Sum>i<n. u i * u i)"
    by (simp add: e_def algebra_simps sum_subtractf sum_distrib_left)
  with m have EU: "(\<Sum>i<n. e i * u i) = 0" by simp
  have mx: "mean (map real [0..<n]) = xbar"
    using sum_list_upt_real [of "\<lambda>x. x" n] by (simp add: mean_def xbar_def)
  have my: "mean ys = ybar"
    by (simp add: mean_def sum_list_nth_real ybar_def n_def)
  have best: "sq_err ys (ols_slope ys) (ols_intercept ys) = (\<Sum>i<n. e i * e i)"
    unfolding sq_err_def ols_intercept_def my n_def [symmetric] mx m_def [symmetric]
    by (rule sum.cong) (simp_all add: e_def u_def v_def power2_eq_square algebra_simps)
  have "sq_err ys a b = (\<Sum>i<n. (e i + (p * u i + q)) * (e i + (p * u i + q)))"
    unfolding sq_err_def n_def [symmetric]
    by (rule sum.cong)
      (simp_all add: e_def u_def v_def p_def q_def power2_eq_square algebra_simps)
  also have "\<dots> = (\<Sum>i<n. e i * e i + (p * p) * (u i * u i) + q * q
                        + (2 * p) * (e i * u i) + (2 * q) * e i + (2 * p * q) * u i)"
    by (rule sum.cong) (simp_all add: algebra_simps)
  also have "\<dots> = (\<Sum>i<n. e i * e i) + (p * p) * (\<Sum>i<n. u i * u i) + real n * (q * q)
                        + (2 * p) * (\<Sum>i<n. e i * u i) + (2 * q) * (\<Sum>i<n. e i)
                        + (2 * p * q) * (\<Sum>i<n. u i)"
    by (simp only: sum.distrib sum_distrib_left [symmetric]) simp
  also have "\<dots> = (\<Sum>i<n. e i * e i) + (p * p) * (\<Sum>i<n. u i * u i) + real n * (q * q)"
    by (simp add: EU E1 U1)
  finally have "sq_err ys a b =
      (\<Sum>i<n. e i * e i) + (p * p) * (\<Sum>i<n. u i * u i) + real n * (q * q)" .
  then show ?thesis
    unfolding best my n_def [symmetric] mx U2 p_def q_def m_def
    by (simp add: power2_eq_square)
qed

lemma ols_least_squares:
  assumes "2 \<le> length ys"
  shows "sq_err ys (ols_slope ys) (ols_intercept ys) \<le> sq_err ys a b"
proof -
  have "0 \<le> (ols_slope ys - a) ^ 2 * sxy (length ys) real real"
    using sxy_real_pos [OF assms] by simp
  moreover have
    "0 \<le> real (length ys) * (mean ys - a * mean (map real [0..<length ys]) - b) ^ 2"
    by simp
  ultimately show ?thesis unfolding ols_sq_err [OF assms, of a b] by linarith
qed

lemma ols_slope_unique:
  assumes "2 \<le> length ys"
    and "sq_err ys a b \<le> sq_err ys (ols_slope ys) (ols_intercept ys)"
  shows "a = ols_slope ys"
proof -
  have pos: "0 < sxy (length ys) real real" by (rule sxy_real_pos [OF assms(1)])
  have "0 \<le> real (length ys) * (mean ys - a * mean (map real [0..<length ys]) - b) ^ 2"
    by simp
  with assms(2) have "(ols_slope ys - a) ^ 2 * sxy (length ys) real real \<le> 0"
    unfolding ols_sq_err [OF assms(1), of a b] by linarith
  with pos have "(ols_slope ys - a) ^ 2 \<le> 0" by (simp add: mult_le_0_iff)
  then show ?thesis by simp
qed

section \<open>Properties of analyze\<close>

lemma soh_finite:
  "energy_design_wh s \<noteq> 0 \<Longrightarrow>
     soh s = Fin (fmul (fdiv (energy_full_wh s) (energy_design_wh s)) 100)"
  by (simp add: soh_def fl_div_def)

lemma soh_not_finite:
  "energy_design_wh s = 0 \<Longrightarrow>
     soh s = (if 0 < energy_full_wh s then PInf else if energy_full_wh s < 0 then NInf else NaN)"
  by (simp add: soh_def fl_div_def)

lemma col_max_Max: "vs \<noteq> [] \<Longrightarrow> col_max vs = Max (set vs)"
proof (cases vs)
  case Nil
  then show "vs \<noteq> [] \<Longrightarrow> col_max vs = Max (set vs)" by simp
next
  case (Cons a list)
  have "Max (set (a # list)) = fold max list a" by (rule Max.set_eq_fold)
  with Cons show "col_max vs = Max (set vs)" by (simp add: col_max_def)
qed

lemma col_max_gt: "vs \<noteq> [] \<Longrightarrow> c < col_max vs \<longleftrightarrow> (\<exists>v\<in>set vs. c < v)"
  by (simp add: col_max_Max Max_gr_iff)

lemma temp_penalty_any:
  "df \<noteq> [] \<Longrightarrow> temp_penalty df = (if \<exists>s\<in>set df. 45 < temp_c s then 20 else 0)"
  by (simp add: temp_penalty_def col_max_gt)

lemma health_score_raw_finite:
  "energy_design_wh (last df) \<noteq> 0 \<Longrightarrow>
     health_score_raw df =
       Fin (fadd
              (fadd
                 (fmul (fmul (fdiv (energy_full_wh (last df)) (energy_design_wh (last df))) 100)
                    (fround (6 / 10)))
                 (fsub 20 (cycle_penalty (last df))))
              (20 - temp_penalty df))"
  by (simp add: health_score_raw_def soh_finite)

lemma py_int_health_score_raw:
  "energy_design_wh (last df) = 0 \<Longrightarrow>
     py_int (health_score_raw df) =
       Inl (if energy_full_wh (last df) = 0 then ValueError else OverflowError)"
  using fround_six_tenths_pos by (simp add: health_score_raw_def soh_not_finite)

lemma analyze_raises:
  "2 \<le> length df \<Longrightarrow> energy_design_wh (last df) = 0 \<Longrightarrow>
     analyze df = Inl (if energy_full_wh (last df) = 0 then ValueError else OverflowError)"
  by (auto simp: analyze_def py_int_health_score_raw)

lemma analyze_returns:
  "2 \<le> length df \<Longrightarrow> energy_design_wh (last df) \<noteq> 0 \<Longrightarrow>
     analyze df =
       Inr \<lparr>soh_percent =
              Fin (np_round
                     (fmul (fdiv (energy_full_wh (last df)) (energy_design_wh (last df))) 100)
                     2),
            health_score =
              trunc
                (fadd
                   (fadd
                      (fmul
                         (fmul (fdiv (energy_full_wh (last df)) (energy_design_wh (last df)))
                            100)
                         (fround (6 / 10)))
                      (fsub 20 (cycle_penalty (last df))))
                   (20 - temp_penalty df)),
            discharge_rate = py_round (slope df) 3,
            stability_index = fl_round (v_stability df) 2,
            cycle_count = cycles (last df),
            recommendations = recs df\<rparr>"
  by (auto simp: analyze_def health_score_raw_finite soh_finite)

lemma analyze_Inr_design:
  "2 \<le> length df \<Longrightarrow> analyze df = Inr r \<Longrightarrow> energy_design_wh (last df) \<noteq> 0"
  using analyze_raises [of df] by auto


lemma slope_worn: "slope df_worn = - (6 / 10)"
  by (simp add: slope_def df_worn_def mk_row_def tail_def ols_slope_def mean_def
      power2_eq_square Let_def)

lemma rolling_std_worn:
  "rolling_std 5 (map voltage_v df_worn) = [None, None, None, None, Some 2]"
  by (simp add: rolling_std_def df_worn_def mk_row_def sample_std_def mean_def)

lemma v_stability_worn: "v_stability df_worn = Fin 80"
  by (simp add: v_stability_def rolling_std_worn series_mean_def present_def mean_def)

lemma last_worn: "last df_worn = mk_row 80 14 41 (75 / 2) 50 100"
  by (simp add: df_worn_def)

lemma temp_penalty_worn: "temp_penalty df_worn = 20"
  by (simp add: temp_penalty_def col_max_def df_worn_def mk_row_def)

lemma soh_row_worn: "soh (mk_row p v t (75 / 2) 50 c) = Fin 75"
  by (simp add: soh_def fl_div_def mk_row_def f64_eval)

lemma soh_row_fresh: "soh (mk_row p v t 45 50 c) = Fin 90"
  by (simp add: soh_def fl_div_def mk_row_def f64_eval)

lemma soh_percent_worn: "fl_np_round (Fin 75) 2 = Fin 75"
  by (simp add: f64_eval)

lemma soh_percent_fresh: "fl_np_round (Fin 90) 2 = Fin 90"
  by (simp add: f64_eval)

lemma cycle_penalty_100: "cycle_penalty (mk_row p v t full design 100) = 2"
  by (simp add: cycle_penalty_def mk_row_def f64_eval)

text \<open>19 Wh left of 30 Wh after 700 cycles: the sum in doubles lies just below 64.\<close>

lemma health_faded: "py_int (health_score_raw df_faded) = Inr 63"
  by (simp add: health_score_raw_def soh_def fl_div_def cycle_penalty_def temp_penalty_def
      col_max_def mk_row_def df_faded_def)
    (simp add: trunc_def f64_eval)

lemma recs_worn: "recs df_worn = [rec_thermal, rec_eol, rec_discharge]"
  by (simp add: recs_def slope_worn last_worn soh_row_worn) (simp add: mk_row_def)

lemma health_worn: "py_int (health_score_raw df_worn) = Inr 63"
  by (simp add: health_score_raw_def last_worn soh_row_worn cycle_penalty_100
      temp_penalty_worn)
    (simp add: trunc_def f64_eval)

lemma analyze_worn:
  "analyze df_worn =
     Inr \<lparr>soh_percent = Fin 75, health_score = 63, discharge_rate = - (6 / 10),
          stability_index = Fin 80, cycle_count = 100,
          recommendations = [rec_thermal, rec_eol, rec_discharge]\<rparr>"
proof -
  have len: "2 \<le> length df_worn" by (simp add: df_worn_def)
  have d: "energy_design_wh (last df_worn) \<noteq> 0" by (simp add: last_worn mk_row_def)
  have c: "cycles (last df_worn) = 100" by (simp add: last_worn mk_row_def)
  have s: "py_round (slope df_worn) 3 = - (6 / 10)"
    by (simp add: slope_worn py_round_def round_half_even_def)
  have v: "fl_round (v_stability df_worn) 2 = Fin 80"
    by (simp add: v_stability_worn py_round_def round_half_even_def)
  from len have n: "\<not> (df_worn = [] \<or> length df_worn < 2)" by auto
  show ?thesis
    unfolding analyze_def
    by (simp only: n if_False health_worn sum.case last_worn soh_row_worn soh_percent_worn
        s v recs_worn) (simp add: mk_row_def)
qed

lemma slope_fresh: "slope df_fresh = 0"
  by (simp add: slope_def df_fresh_def mk_row_def tail_def ols_slope_def mean_def Let_def)

lemma v_stability_fresh: "v_stability df_fresh = NaN"
  by (simp add: v_stability_def rolling_std_def series_mean_def present_def df_fresh_def)

lemma analyze_fresh:
  "analyze df_fresh =
     Inr \<lparr>soh_percent = Fin 90, health_score = 92, discharge_rate = 0,
          stability_index = NaN, cycle_count = 100, recommendations = []\<rparr>"
proof -
  have len: "2 \<le> length df_fresh" by (simp add: df_fresh_def)
  have l: "last df_fresh = mk_row 80 12 30 45 50 100" by (simp add: df_fresh_def)
  have d: "energy_design_wh (last df_fresh) \<noteq> 0" by (simp add: l mk_row_def)
  have t: "temp_penalty df_fresh = 0"
    by (simp add: temp_penalty_def col_max_def df_fresh_def mk_row_def)
  have r: "recs df_fresh = []"
    by (simp add: recs_def slope_fresh l soh_row_fresh) (simp add: mk_row_def)
  have h: "py_int (health_score_raw df_fresh) = Inr 92"
    by (simp add: health_score_raw_def l soh_row_fresh cycle_penalty_100 t)
      (simp add: trunc_def f64_eval)
  have s: "py_round (slope df_fresh) 3 = 0"
    by (simp add: slope_fresh py_round_def round_half_even_def)
  from len have n: "\<not> (df_fresh = [] \<or> length df_fresh < 2)" by auto
  show ?thesis
    unfolding analyze_def
    by (simp only: n if_False h sum.case l soh_row_fresh soh_percent_fresh
        s v_stability_fresh fl_round.simps r) (simp add: mk_row_def)
qed

text \<open>
  C2: on fewer than two rows (the empty log included) \<open>analyze\<close> returns the fixed
  report whose numeric fields are all 0 and whose only recommendation is
  "Waiting for data...".
\<close>

theorem analyze_degenerate:
  "length df < 2 \<Longrightarrow>
     analyze df =
       Inr \<lparr>soh_percent = Fin 0, health_score = 0, discharge_rate = 0,
            stability_index = Fin 0, cycle_count = 0,
            recommendations = [''Waiting for data...'']\<rparr>"
  by (simp add: analyze_def empty_metrics_def)

theorem analyze_degenerate_witness:
  "length ([] :: telemetry list) < 2 \<and>
   analyze [] =
     Inr \<lparr>soh_percent = Fin 0, health_score = 0, discharge_rate = 0,
          stability_index = Fin 0, cycle_count = 0,
          recommendations = [''Waiting for data...'']\<rparr> \<and>
   length [\<lparr>timestamp = ''2024-01-01T00:00:00'', pct = 80, status = ''Discharging'',
             voltage_v = 12, current_a = 1, power_w = 12, temp_c = 50,
             energy_wh = 40, energy_full_wh = 0, energy_design_wh = 0,
             cycles = 3, charge_rate_w = - 12\<rparr>] < 2 \<and>
   analyze [\<lparr>timestamp = ''2024-01-01T00:00:00'', pct = 80, status = ''Discharging'',
             voltage_v = 12, current_a = 1, power_w = 12, temp_c = 50,
             energy_wh = 40, energy_full_wh = 0, energy_design_wh = 0,
             cycles = 3, charge_rate_w = - 12\<rparr>] =
     Inr \<lparr>soh_percent = Fin 0, health_score = 0, discharge_rate = 0,
          stability_index = Fin 0, cycle_count = 0,
          recommendations = [''Waiting for data...'']\<rparr>"
  using analyze_degenerate [of "[]"]
    analyze_degenerate [of "[\<lparr>timestamp = ''2024-01-01T00:00:00'', pct = 80,
             status = ''Discharging'',
             voltage_v = 12, current_a = 1, power_w = 12, temp_c = 50,
             energy_wh = 40, energy_full_wh = 0, energy_design_wh = 0,
             cycles = 3, charge_rate_w = - 12\<rparr>]"]
  by simp

text \<open>
  C1 as stated fails where the latest row has a design energy of 0: nothing guards the
  division.  With a full energy of 0 as well the quotient is NaN, with a positive full
  energy it is infinite; in both cases no report with a state of health of 0 comes
  back, because \<open>int(health_score)\<close> raises.
\<close>

theorem soh_unguarded:
  "analyze [mk_row 80 12 30 0 0 100, mk_row 79 12 30 0 0 100] = Inl ValueError \<and>
   analyze [mk_row 80 12 30 45 50 100, mk_row 79 12 30 45 0 100] = Inl OverflowError"
  by (simp add: analyze_raises mk_row_def)

text \<open>
  C1, amended: for at least two rows whose latest row has a design energy other than 0,
  \<open>analyze\<close> returns a report; the state of health it computes is the full energy
  divided by the design energy, times 100, of the latest row, each operation rounded to
  a double (so within a relative error of 3 / 2 ^ 53 of the exact quotient times 100),
  and the report carries it rounded to 2 decimals by \<open>numpy.round\<close>; with a positive
  design energy and a full energy that is not negative, neither the computed nor the
  reported value is negative.
\<close>

theorem soh_reported:
  assumes "2 \<le> length df" and "energy_design_wh (last df) \<noteq> 0"
  shows "\<exists>r. analyze df = Inr r \<and>
     soh (last df) =
       Fin (fmul (fdiv (energy_full_wh (last df)) (energy_design_wh (last df))) 100) \<and>
     \<bar>fmul (fdiv (energy_full_wh (last df)) (energy_design_wh (last df))) 100
        - energy_full_wh (last df) / energy_design_wh (last df) * 100\<bar>
       \<le> 3 / 2 ^ 53 * \<bar>energy_full_wh (last df) / energy_design_wh (last df) * 100\<bar> \<and>
     soh_percent r =
       Fin (np_round
              (fmul (fdiv (energy_full_wh (last df)) (energy_design_wh (last df))) 100) 2) \<and>
     (0 < energy_design_wh (last df) \<and> 0 \<le> energy_full_wh (last df) \<longrightarrow>
        0 \<le> fmul (fdiv (energy_full_wh (last df)) (energy_design_wh (last df))) 100 \<and>
        0 \<le> np_round
              (fmul (fdiv (energy_full_wh (last df)) (energy_design_wh (last df))) 100) 2)"
  using assms fmul_fdiv_error [OF assms(2), of "energy_full_wh (last df)" 100]
  by (simp add: analyze_returns soh_finite np_round_nonneg fmul_nonneg fdiv_nonneg)

theorem soh_reported_witness:
  "2 \<le> length df_worn \<and> energy_design_wh (last df_worn) \<noteq> 0 \<and>
   0 < energy_design_wh (last df_worn) \<and> 0 \<le> energy_full_wh (last df_worn) \<and>
   soh (last df_worn) = Fin 75 \<and>
   (\<exists>r. analyze df_worn = Inr r \<and> soh_percent r = Fin 75) \<and>
   2 \<le> length df_aged \<and> energy_design_wh (last df_aged) \<noteq> 0 \<and>
   soh (last df_aged) = Fin (8092405580431359 / 562949953421312) \<and>
   (\<exists>r. analyze df_aged = Inr r \<and> soh_percent r = Fin (fround (1437 / 100)))"
proof -
  have len: "2 \<le> length df_worn" by (simp add: df_worn_def)
  have d: "energy_design_wh (last df_worn) \<noteq> 0" by (simp add: last_worn mk_row_def)
  have w: "2 \<le> length df_worn \<and> energy_design_wh (last df_worn) \<noteq> 0 \<and>
      0 < energy_design_wh (last df_worn) \<and> 0 \<le> energy_full_wh (last df_worn) \<and>
      soh (last df_worn) = Fin 75 \<and>
      (\<exists>r. analyze df_worn = Inr r \<and> soh_percent r = Fin 75)"
    using soh_reported [OF len d] len
    by (simp add: analyze_worn last_worn soh_row_worn) (simp add: mk_row_def)
  have len': "2 \<le> length df_aged" by (simp add: df_aged_def)
  have l': "last df_aged = mk_row 80 12 30 23 160 100" by (simp add: df_aged_def)
  have d': "energy_design_wh (last df_aged) \<noteq> 0" by (simp add: l' mk_row_def)
  have q: "fmul (fdiv (energy_full_wh (last df_aged)) (energy_design_wh (last df_aged))) 100
      = 8092405580431359 / 562949953421312"
    by (simp add: l' mk_row_def) (simp add: f64_eval)
  have p: "np_round (8092405580431359 / 562949953421312) 2 = fround (1437 / 100)"
    by (simp add: f64_eval)
  from soh_reported [OF len' d']
  have "\<exists>r. analyze df_aged = Inr r \<and>
      soh (last df_aged) = Fin (8092405580431359 / 562949953421312) \<and>
      soh_percent r = Fin (fround (1437 / 100))"
    by (simp only: q p) blast
  with w len' d' show ?thesis by blast
qed

text \<open>
  C6: for at least two rows the health score is the state of health times 0.6, plus 20
  less the cycle penalty, plus 20 less the temperature penalty, summed from the left in
  doubles and truncated to an integer by \<open>int\<close>; the cycle penalty is the smaller of
  20 and the latest cycle count / 1000 * 20; the temperature penalty is 20 if any row of
  the whole log, at whatever position, is hotter than 45 degrees, and 0 otherwise.  The
  report carries exactly the integer that \<open>int\<close> yields for that sum, and a report
  exists whenever the latest design energy is not 0.
\<close>

theorem health_score_formula:
  assumes "2 \<le> length df"
  shows "health_score_raw df =
           fl_add
             (fl_add (fl_mul (soh (last df)) (fround (6 / 10)))
                (fsub 20
                   (min 20 (fmul (fdiv (fround (real_of_int (cycles (last df)))) 1000) 20))))
             (20 - (if \<exists>s\<in>set df. 45 < temp_c s then 20 else 0)) \<and>
         (case analyze df of
            Inl e \<Rightarrow> py_int (health_score_raw df) = Inl e
          | Inr r \<Rightarrow> py_int (health_score_raw df) = Inr (health_score r)) \<and>
         (energy_design_wh (last df) \<noteq> 0 \<longrightarrow> (\<exists>r. analyze df = Inr r)) \<and>
         (\<forall>r. analyze df = Inr r \<longrightarrow>
            health_score r =
              trunc
                (fadd
                   (fadd
                      (fmul
                         (fmul (fdiv (energy_full_wh (last df)) (energy_design_wh (last df)))
                            100)
                         (fround (6 / 10)))
                      (fsub 20
                         (min 20
                            (fmul (fdiv (fround (real_of_int (cycles (last df)))) 1000) 20))))
                   (20 - (if \<exists>s\<in>set df. 45 < temp_c s then 20 else 0))))"
proof -
  from assms have ne: "df \<noteq> []" by auto
  have raw: "health_score_raw df =
           fl_add
             (fl_add (fl_mul (soh (last df)) (fround (6 / 10)))
                (fsub 20
                   (min 20 (fmul (fdiv (fround (real_of_int (cycles (last df)))) 1000) 20))))
             (20 - (if \<exists>s\<in>set df. 45 < temp_c s then 20 else 0))"
    by (simp only: health_score_raw_def cycle_penalty_def temp_penalty_any [OF ne])
  have out: "case analyze df of
            Inl e \<Rightarrow> py_int (health_score_raw df) = Inl e
          | Inr r \<Rightarrow> py_int (health_score_raw df) = Inr (health_score r)"
  proof -
    from assms have c: "\<not> (df = [] \<or> length df < 2)" by auto
    show ?thesis unfolding analyze_def by (simp only: c if_False split: sum.splits) simp
  qed
  have ex: "energy_design_wh (last df) \<noteq> 0 \<longrightarrow> (\<exists>r. analyze df = Inr r)"
    using assms by (simp add: analyze_returns)
  have val: "\<forall>r. analyze df = Inr r \<longrightarrow>
            health_score r =
              trunc
                (fadd
                   (fadd
                      (fmul
                         (fmul (fdiv (energy_full_wh (last df)) (energy_design_wh (last df)))
                            100)
                         (fround (6 / 10)))
                      (fsub 20
                         (min 20
                            (fmul (fdiv (fround (real_of_int (cycles (last df)))) 1000) 20))))
                   (20 - (if \<exists>s\<in>set df. 45 < temp_c s then 20 else 0)))"
  proof (intro allI impI)
    fix r assume r: "analyze df = Inr r"
    from analyze_Inr_design [OF assms r] have d: "energy_design_wh (last df) \<noteq> 0" .
    from r show "health_score r =
              trunc
                (fadd
                   (fadd
                      (fmul
                         (fmul (fdiv (energy_full_wh (last df)) (energy_design_wh (last df)))
                            100)
                         (fround (6 / 10)))
                      (fsub 20
                         (min 20
                            (fmul (fdiv (fround (real_of_int (cycles (last df)))) 1000) 20))))
                   (20 - (if \<exists>s\<in>set df. 45 < temp_c s then 20 else 0)))"
      unfolding analyze_returns [OF assms d] cycle_penalty_def temp_penalty_any [OF ne]
      by auto
  qed
  from raw out ex val show ?thesis by blast
qed

theorem health_score_formula_witness:
  "2 \<le> length df_worn \<and> analyze df_worn \<noteq> Inl ValueError \<and>
   (\<exists>s\<in>set df_worn. 45 < temp_c s) \<and> \<not> 45 < temp_c (last df_worn) \<and>
   py_int (health_score_raw df_worn) = Inr 63 \<and>
   2 \<le> length df_third \<and> py_int (health_score_raw df_third) = Inr 59 \<and>
   (\<exists>r. analyze df_third = Inr r \<and> health_score r = 59)"
proof -
  have len: "2 \<le> length df_worn" by (simp add: df_worn_def)
  have hot: "\<exists>s\<in>set df_worn. 45 < temp_c s" by (simp add: df_worn_def mk_row_def)
  have cool: "\<not> 45 < temp_c (last df_worn)" by (simp add: last_worn mk_row_def)
  have a: "analyze df_worn \<noteq> Inl ValueError" by (simp add: analyze_worn)
  have len': "2 \<le> length df_third" by (simp add: df_third_def)
  have l': "last df_third = mk_row 80 12 30 2 3 1000" by (simp add: df_third_def)
  have d': "energy_design_wh (last df_third) \<noteq> 0" by (simp add: l' mk_row_def)
  have t': "\<not> (\<exists>s\<in>set df_third. 45 < temp_c s)" by (simp add: df_third_def mk_row_def)
  have v': "trunc
                (fadd
                   (fadd
                      (fmul
                         (fmul (fdiv (energy_full_wh (last df_third))
                                  (energy_design_wh (last df_third))) 100)
                         (fround (6 / 10)))
                      (fsub 20
                         (min 20
                            (fmul (fdiv (fround (real_of_int (cycles (last df_third)))) 1000)
                               20))))
                   (20 - (if \<exists>s\<in>set df_third. 45 < temp_c s then 20 else 0))) = 59"
    by (simp add: l' t' mk_row_def) (simp add: trunc_def f64_eval)
  note t = health_score_formula [OF len']
  from t d' obtain r where r: "analyze df_third = Inr r" by blast
  with t have "health_score r =
      trunc
                (fadd
                   (fadd
                      (fmul
                         (fmul (fdiv (energy_full_wh (last df_third))
                                  (energy_design_wh (last df_third))) 100)
                         (fround (6 / 10)))
                      (fsub 20
                         (min 20
                            (fmul (fdiv (fround (real_of_int (cycles (last df_third)))) 1000)
                               20))))
                   (20 - (if \<exists>s\<in>set df_third. 45 < temp_c s then 20 else 0)))"
    by blast
  with v' have h: "health_score r = 59" by simp
  from t have "case analyze df_third of
            Inl e \<Rightarrow> py_int (health_score_raw df_third) = Inl e
          | Inr r \<Rightarrow> py_int (health_score_raw df_third) = Inr (health_score r)"
    by blast
  with r have "py_int (health_score_raw df_third) = Inr (health_score r)" by simp
  with h have p: "py_int (health_score_raw df_third) = Inr 59" by simp
  from r h have e: "\<exists>r. analyze df_third = Inr r \<and> health_score r = 59" by blast
  from len hot cool a health_worn len' p e show ?thesis by blast
qed

lemma recs_distinct:
  "rec_thermal \<noteq> rec_eol" "rec_thermal \<noteq> rec_discharge" "rec_eol \<noteq> rec_discharge"
  by (simp_all add: rec_thermal_def rec_eol_def rec_discharge_def)

text \<open>
  C8: for at least two rows the recommendations of the report are the advisories of the
  three rules, each rule on its own and in the fixed order: latest temperature above 40,
  state of health below 80, slope below -0.5.  An advisory is in the list exactly when
  its rule matches; when all three match (as for a latest temperature of 41, a state of
  health of 75 and a slope of -0.6) the list is the three advisories, and when none
  matches it is empty.
\<close>

theorem recommendation_rules:
  assumes "2 \<le> length df"
  shows "(\<forall>r. analyze df = Inr r \<longrightarrow> recommendations r = recs df) \<and>
     recs df =
       (if 40 < temp_c (last df) then [rec_thermal] else []) @
       (if fl_less (soh (last df)) 80 then [rec_eol] else []) @
       (if slope df < - (1 / 2) then [rec_discharge] else []) \<and>
     (rec_thermal \<in> set (recs df) \<longleftrightarrow> 40 < temp_c (last df)) \<and>
     (rec_eol \<in> set (recs df) \<longleftrightarrow> fl_less (soh (last df)) 80) \<and>
     (rec_discharge \<in> set (recs df) \<longleftrightarrow> slope df < - (1 / 2)) \<and>
     (40 < temp_c (last df) \<and> fl_less (soh (last df)) 80 \<and> slope df < - (1 / 2) \<longrightarrow>
        recs df = [rec_thermal, rec_eol, rec_discharge]) \<and>
     (\<not> 40 < temp_c (last df) \<and> \<not> fl_less (soh (last df)) 80 \<and> \<not> slope df < - (1 / 2) \<longrightarrow>
        recs df = [])"
proof -
  have rep: "\<forall>r. analyze df = Inr r \<longrightarrow> recommendations r = recs df"
    using assms by (auto simp: analyze_def split: sum.splits)
  show ?thesis
    using rep recs_distinct by (simp add: recs_def)
qed


theorem recommendation_rules_witness:
  "2 \<le> length df_worn \<and> 40 < temp_c (last df_worn) \<and> fl_less (soh (last df_worn)) 80 \<and>
   slope df_worn < - (1 / 2) \<and>
   temp_c (last df_worn) = 41 \<and> soh (last df_worn) = Fin 75 \<and> slope df_worn = - (6 / 10) \<and>
   analyze df_worn =
     Inr \<lparr>soh_percent = Fin 75, health_score = 63, discharge_rate = - (6 / 10),
          stability_index = Fin 80, cycle_count = 100,
          recommendations = [rec_thermal, rec_eol, rec_discharge]\<rparr> \<and>
   recs df_worn = [rec_thermal, rec_eol, rec_discharge] \<and>
   2 \<le> length df_fresh \<and> \<not> 40 < temp_c (last df_fresh) \<and>
   \<not> fl_less (soh (last df_fresh)) 80 \<and> \<not> slope df_fresh < - (1 / 2) \<and>
   recs df_fresh = []"
proof -
  have len: "2 \<le> length df_worn" by (simp add: df_worn_def)
  have len': "2 \<le> length df_fresh" by (simp add: df_fresh_def)
  have t: "temp_c (last df_worn) = 41" by (simp add: last_worn mk_row_def)
  have s: "soh (last df_worn) = Fin 75" by (simp add: last_worn soh_row_worn)
  have l: "last df_fresh = mk_row 80 12 30 45 50 100" by (simp add: df_fresh_def)
  have t': "temp_c (last df_fresh) = 30" by (simp add: l mk_row_def)
  have s': "soh (last df_fresh) = Fin 90" by (simp add: l soh_row_fresh)
  have a: "40 < temp_c (last df_worn) \<and> fl_less (soh (last df_worn)) 80 \<and>
      slope df_worn < - (1 / 2)"
    by (simp add: t s slope_worn)
  have b: "\<not> 40 < temp_c (last df_fresh) \<and> \<not> fl_less (soh (last df_fresh)) 80 \<and>
      \<not> slope df_fresh < - (1 / 2)"
    by (simp add: t' s' slope_fresh)
  from recommendation_rules [OF len] a
  have w: "recs df_worn = [rec_thermal, rec_eol, rec_discharge]" by blast
  from recommendation_rules [OF len'] b
  have f: "recs df_fresh = []" by blast
  from len len' a b t s slope_worn analyze_worn w f show ?thesis by blast
qed

lemma slope_drain: "slope df_drain = - (5 / 2)"
  by (simp add: slope_def df_drain_def mk_row_def tail_def ols_slope_def mean_def
      power2_eq_square Let_def)

lemma v_stability_drain: "v_stability df_drain = NaN"
  by (simp add: v_stability_def rolling_std_def series_mean_def present_def df_drain_def)

lemma analyze_drain:
  "analyze df_drain =
     Inr \<lparr>soh_percent = Fin 90, health_score = 92, discharge_rate = - (5 / 2),
          stability_index = NaN, cycle_count = 100,
          recommendations = [rec_discharge]\<rparr>"
proof -
  have len: "2 \<le> length df_drain" by (simp add: df_drain_def)
  have l: "last df_drain = mk_row 85 12 30 45 50 100" by (simp add: df_drain_def)
  have d: "energy_design_wh (last df_drain) \<noteq> 0" by (simp add: l mk_row_def)
  have t: "temp_penalty df_drain = 0"
    by (simp add: temp_penalty_def col_max_def df_drain_def mk_row_def)
  have r: "recs df_drain = [rec_discharge]"
    by (simp add: recs_def slope_drain l soh_row_fresh) (simp add: mk_row_def)
  have h: "py_int (health_score_raw df_drain) = Inr 92"
    by (simp add: health_score_raw_def l soh_row_fresh cycle_penalty_100 t)
      (simp add: trunc_def f64_eval)
  have s: "py_round (slope df_drain) 3 = - (5 / 2)"
    by (simp add: slope_drain py_round_def round_half_even_def)
  from len have n: "\<not> (df_drain = [] \<or> length df_drain < 2)" by auto
  show ?thesis
    unfolding analyze_def
    by (simp only: n if_False h sum.case l soh_row_fresh soh_percent_fresh
        s v_stability_drain fl_round.simps r) (simp add: mk_row_def)
qed

text \<open>
  C7: for at least two rows the discharge rate is the slope of the least-squares line
  through the charge percentages of the trailing rows (ten of them, or all when there are
  fewer) against their positions 0, 1, ...: no line has a smaller sum of squared
  residuals, and every line that does as well has the same slope.  The report carries the
  slope rounded to 3 decimals.  A strictly decreasing run of percentages gives a negative
  slope (and a strictly increasing one a positive slope), a constant run gives 0, and for
  exactly two rows the slope is the second percentage less the first; the same holds for
  the rounded value of the report.
\<close>

theorem discharge_rate_slope:
  assumes "2 \<le> length df"
  shows "length (tail 10 df) = min 10 (length df) \<and>
     tail 10 df = drop (length df - 10) df \<and>
     slope df = ols_slope (map (\<lambda>s. real_of_int (pct s)) (tail 10 df)) \<and>
     (\<forall>a b. sq_err (map (\<lambda>s. real_of_int (pct s)) (tail 10 df)) (slope df)
               (ols_intercept (map (\<lambda>s. real_of_int (pct s)) (tail 10 df)))
             \<le> sq_err (map (\<lambda>s. real_of_int (pct s)) (tail 10 df)) a b) \<and>
     (\<forall>a b. sq_err (map (\<lambda>s. real_of_int (pct s)) (tail 10 df)) a b
             \<le> sq_err (map (\<lambda>s. real_of_int (pct s)) (tail 10 df)) (slope df)
                  (ols_intercept (map (\<lambda>s. real_of_int (pct s)) (tail 10 df)))
             \<longrightarrow> a = slope df) \<and>
     (\<forall>r. analyze df = Inr r \<longrightarrow> discharge_rate r = py_round (slope df) 3) \<and>
     (sorted_wrt (\<lambda>a b. b < a) (map pct (tail 10 df)) \<longrightarrow>
        slope df < 0 \<and> py_round (slope df) 3 < 0) \<and>
     (sorted_wrt (\<lambda>a b. a < b) (map pct (tail 10 df)) \<longrightarrow>
        0 < slope df \<and> 0 < py_round (slope df) 3) \<and>
     ((\<forall>s\<in>set (tail 10 df). pct s = c) \<longrightarrow>
        slope df = 0 \<and> py_round (slope df) 3 = 0) \<and>
     (length df = 2 \<longrightarrow>
        slope df = real_of_int (pct (df ! 1) - pct (df ! 0)) \<and>
        py_round (slope df) 3 = real_of_int (pct (df ! 1) - pct (df ! 0)))"
proof -
  define ys where "ys = map (\<lambda>s. real_of_int (pct s)) (tail 10 df)"
  have ys_int: "ys = map real_of_int (map pct (tail 10 df))" by (simp add: ys_def comp_def)
  have len: "length (tail 10 df) = min 10 (length df)" by (rule length_tail)
  with assms have len2: "2 \<le> length ys" by (simp add: ys_def)
  have sl: "slope df = ols_slope ys" by (simp add: slope_def ys_def)
  have least: "\<forall>a b. sq_err ys (slope df) (ols_intercept ys) \<le> sq_err ys a b"
    unfolding sl using ols_least_squares [OF len2] by blast
  have uniq: "\<forall>a b. sq_err ys a b \<le> sq_err ys (slope df) (ols_intercept ys) \<longrightarrow> a = slope df"
    unfolding sl using ols_slope_unique [OF len2] by blast
  have rep: "\<forall>r. analyze df = Inr r \<longrightarrow> discharge_rate r = py_round (slope df) 3"
    using assms by (auto simp: analyze_def split: sum.splits)
  have dec: "sorted_wrt (\<lambda>a b. b < a) (map pct (tail 10 df)) \<longrightarrow>
        slope df < 0 \<and> py_round (slope df) 3 < 0"
  proof
    assume s: "sorted_wrt (\<lambda>a b. b < a) (map pct (tail 10 df))"
    have "2 \<le> length (map pct (tail 10 df))" using len2 by (simp add: ys_def)
    from ols_slope_decreasing [OF this s] have "slope df \<le> - 1" by (simp add: sl ys_int)
    then show "slope df < 0 \<and> py_round (slope df) 3 < 0" by (simp add: py_round_neg)
  qed
  have inc: "sorted_wrt (\<lambda>a b. a < b) (map pct (tail 10 df)) \<longrightarrow>
        0 < slope df \<and> 0 < py_round (slope df) 3"
  proof
    assume s: "sorted_wrt (\<lambda>a b. a < b) (map pct (tail 10 df))"
    have "2 \<le> length (map pct (tail 10 df))" using len2 by (simp add: ys_def)
    from ols_slope_increasing [OF this s] have "1 \<le> slope df" by (simp add: sl ys_int)
    then show "0 < slope df \<and> 0 < py_round (slope df) 3" by (simp add: py_round_pos)
  qed
  have const: "(\<forall>s\<in>set (tail 10 df). pct s = c) \<longrightarrow>
        slope df = 0 \<and> py_round (slope df) 3 = 0"
  proof
    assume a: "\<forall>s\<in>set (tail 10 df). pct s = c"
    have "ols_slope ys = 0"
    proof (rule ols_slope_constant [OF len2])
      fix y assume "y \<in> set ys"
      with a show "y = real_of_int c" by (auto simp: ys_def)
    qed
    then show "slope df = 0 \<and> py_round (slope df) 3 = 0" by (simp add: sl py_round_zero)
  qed
  have two: "length df = 2 \<longrightarrow>
        slope df = real_of_int (pct (df ! 1) - pct (df ! 0)) \<and>
        py_round (slope df) 3 = real_of_int (pct (df ! 1) - pct (df ! 0))"
  proof
    assume l: "length df = 2"
    then obtain x y where df: "df = [x, y]"
      by (cases df; cases "tl df") (auto simp: length_Suc_conv)
    have "slope df = real_of_int (pct y) - real_of_int (pct x)"
      by (simp add: slope_def tail_def df ols_slope_two)
    then have s: "slope df = real_of_int (pct (df ! 1) - pct (df ! 0))" by (simp add: df)
    show "slope df = real_of_int (pct (df ! 1) - pct (df ! 0)) \<and>
        py_round (slope df) 3 = real_of_int (pct (df ! 1) - pct (df ! 0))"
      unfolding s by (simp only: py_round_of_int)
  qed
  have tl: "tail 10 df = drop (length df - 10) df" by (simp add: tail_def)
  from len tl sl least uniq rep dec inc const two show ?thesis
    unfolding ys_def by blast
qed


theorem discharge_rate_slope_witness:
  "2 \<le> length df_drain \<and>
   sorted_wrt (\<lambda>a b. b < a) (map pct (tail 10 df_drain)) \<and>
   analyze df_drain =
     Inr \<lparr>soh_percent = Fin 90, health_score = 92, discharge_rate = - (5 / 2),
          stability_index = NaN, cycle_count = 100,
          recommendations = [rec_discharge]\<rparr> \<and>
   slope df_drain = - (5 / 2) \<and> slope df_drain < 0 \<and> py_round (slope df_drain) 3 < 0 \<and>
   py_round (slope df_drain) 3 = - (5 / 2) \<and>
   length df_fresh = 2 \<and> map pct (tail 10 df_fresh) = [80, 80] \<and>
   slope df_fresh = 0 \<and> py_round (slope df_fresh) 3 = 0 \<and>
   length df_charge = 2 \<and> sorted_wrt (\<lambda>a b. a < b) (map pct (tail 10 df_charge)) \<and>
   slope df_charge = 3 \<and> 0 < py_round (slope df_charge) 3 \<and>
   real_of_int (pct (df_charge ! 1) - pct (df_charge ! 0)) = 3"
proof -
  have l1: "2 \<le> length df_drain" by (simp add: df_drain_def)
  have l2: "2 \<le> length df_fresh" by (simp add: df_fresh_def)
  have l3: "2 \<le> length df_charge" by (simp add: df_charge_def)
  have s1: "sorted_wrt (\<lambda>a b. b < a) (map pct (tail 10 df_drain))"
    by (simp add: df_drain_def tail_def mk_row_def)
  have c2: "\<forall>s\<in>set (tail 10 df_fresh). pct s = 80"
    by (simp add: df_fresh_def tail_def mk_row_def)
  have s3: "sorted_wrt (\<lambda>a b. a < b) (map pct (tail 10 df_charge))"
    by (simp add: df_charge_def tail_def mk_row_def)
  have n2: "length df_fresh = 2" by (simp add: df_fresh_def)
  have n3: "length df_charge = 2" by (simp add: df_charge_def)
  have d3: "real_of_int (pct (df_charge ! 1) - pct (df_charge ! 0)) = 3"
    by (simp add: df_charge_def mk_row_def)
  note t1 = discharge_rate_slope [OF l1, of 0]
  from t1 s1 have a1: "slope df_drain < 0 \<and> py_round (slope df_drain) 3 < 0" by blast
  from t1 analyze_drain
  have "discharge_rate
         \<lparr>soh_percent = Fin 90, health_score = 92, discharge_rate = - (5 / 2),
          stability_index = NaN, cycle_count = 100,
          recommendations = [rec_discharge]\<rparr> = py_round (slope df_drain) 3"
    by blast
  then have a2: "py_round (slope df_drain) 3 = - (5 / 2)" by simp
  from a1 a2 have a: "slope df_drain < 0 \<and> py_round (slope df_drain) 3 < 0 \<and>
      py_round (slope df_drain) 3 = - (5 / 2)" by blast
  from discharge_rate_slope [OF l2, of 80] c2
  have b: "slope df_fresh = 0 \<and> py_round (slope df_fresh) 3 = 0" by blast
  note t3 = discharge_rate_slope [OF l3, of 0]
  from t3 s3 have c1: "0 < py_round (slope df_charge) 3" by blast
  from t3 n3 have "slope df_charge = real_of_int (pct (df_charge ! 1) - pct (df_charge ! 0))"
    by blast
  with d3 have c3: "slope df_charge = 3" by simp
  from c1 c3 have c: "slope df_charge = 3 \<and> 0 < py_round (slope df_charge) 3" by blast
  have m2: "map pct (tail 10 df_fresh) = [80, 80]"
    by (simp add: df_fresh_def tail_def mk_row_def)
  from l1 s1 analyze_drain slope_drain a n2 m2 b n3 s3 c d3 show ?thesis by blast
qed

lemma present_append: "present (xs @ ys) = present xs @ present ys"
  by (simp add: present_def)

lemma rolling_std_split:
  assumes "0 < w" and "w \<le> length vs"
  shows "rolling_std w vs =
         replicate (w - 1) None @
         map (\<lambda>k. Some (sample_std (take w (drop k vs)))) [0..<length vs - (w - 1)]"
proof -
  define g where "g i = (if i + 1 < w then None
              else Some (sample_std (take w (drop (i + 1 - w) vs))))" for i
  define n where "n = length vs"
  have split: "[0..<n] = [0..<w - 1] @ [w - 1..<n]"
    using assms upt_add_eq_append [of 0 "w - 1" "n - (w - 1)"] by (simp add: n_def)
  have "map g [0..<w - 1] = map (\<lambda>i. None) [0..<w - 1]"
    by (rule map_cong) (auto simp: g_def)
  then have lo: "map g [0..<w - 1] = replicate (w - 1) None"
    by (simp add: map_replicate_const)
  have hi: "map g [w - 1..<n] =
        map (\<lambda>i. Some (sample_std (take w (drop (i + 1 - w) vs)))) [w - 1..<n]"
    by (rule map_cong) (auto simp: g_def)
  have shift: "[w - 1..<n] = map (\<lambda>k. k + (w - 1)) [0..<n - (w - 1)]"
  proof -
    have "map (\<lambda>k. k + (w - 1)) [0..<n - (w - 1)] = [w - 1..<n - (w - 1) + (w - 1)]"
      by (rule map_add_upt)
    moreover have "n - (w - 1) + (w - 1) = n" using assms unfolding n_def by linarith
    ultimately show ?thesis by simp
  qed
  have "g = (\<lambda>i. if i + 1 < w then None
              else Some (sample_std (take w (drop (i + 1 - w) vs))))"
    by (rule ext) (simp only: g_def)
  then have "rolling_std w vs = map g [0..<n]"
    by (simp only: rolling_std_def n_def)
  also have "\<dots> = replicate (w - 1) None @
        map (\<lambda>i. Some (sample_std (take w (drop (i + 1 - w) vs)))) [w - 1..<n]"
    by (simp only: split map_append lo hi)
  also have "map (\<lambda>i. Some (sample_std (take w (drop (i + 1 - w) vs)))) [w - 1..<n] =
        map (\<lambda>k. Some (sample_std (take w (drop k vs)))) [0..<n - (w - 1)]"
    using assms(1) by (simp only: shift map_map comp_def) simp
  finally show ?thesis by (simp only: n_def)
qed

lemma present_replicate_None: "present (replicate k None) = []"
  by (induction k) (simp_all add: present_def)

lemma present_map_Some: "present (map (\<lambda>k. Some (h k)) ks) = map h ks"
  by (induction ks) (simp_all add: present_def)

lemma present_rolling_std:
  assumes "0 < w" and "w \<le> length vs"
  shows "present (rolling_std w vs) =
         map (\<lambda>k. sample_std (take w (drop k vs))) [0..<length vs - (w - 1)]"
  by (simp only: rolling_std_split [OF assms] present_append present_replicate_None
      present_map_Some append_Nil)

lemma rolling_std_short:
  assumes "length vs < w"
  shows "rolling_std w vs = replicate (length vs) None"
proof -
  have "rolling_std w vs = map (\<lambda>i. None) [0..<length vs]"
    unfolding rolling_std_def using assms by (intro map_cong) auto
  then show ?thesis by (simp add: map_replicate_const)
qed

lemma series_mean_present:
  "series_mean os = (if present os = [] then NaN else Fin (mean (present os)))"
  by (simp add: series_mean_def Let_def)


lemma v_stability_full:
  assumes "5 \<le> length df"
  shows "v_stability df =
     Fin (100 - mean (map (\<lambda>k. sample_std (take 5 (drop k (map voltage_v df))))
                        [0..<length df - 4]) * 10)"
proof -
  have w: "(0::nat) < 5" by simp
  have l: "5 \<le> length (map voltage_v df)" using assms by simp
  have p: "present (rolling_std 5 (map voltage_v df)) =
      map (\<lambda>k. sample_std (take 5 (drop k (map voltage_v df)))) [0..<length df - 4]"
    using present_rolling_std [OF w l] by simp
  have "length df - 4 \<noteq> 0" using assms by linarith
  then have ne: "present (rolling_std 5 (map voltage_v df)) \<noteq> []" by (simp add: p)
  show ?thesis
    unfolding v_stability_def series_mean_present using ne by (simp add: p)
qed

lemma v_stability_short:
  assumes "length df < 5"
  shows "v_stability df = NaN"
proof -
  have "length (map voltage_v df) < 5" using assms by simp
  from rolling_std_short [OF this]
  have "present (rolling_std 5 (map voltage_v df)) = []"
    by (simp add: present_replicate_None)
  then show ?thesis by (simp add: v_stability_def series_mean_present)
qed

text \<open>
  C5 as stated fails for two to four rows: no window of 5 voltages is complete, every
  rolling entry is absent, the mean of no entries is NaN and so is the stability index
  of the report; it is not a number.
\<close>

theorem stability_undefined_short:
  "analyze df_fresh =
     Inr \<lparr>soh_percent = Fin 90, health_score = 92, discharge_rate = 0,
          stability_index = NaN, cycle_count = 100, recommendations = []\<rparr>"
  by (rule analyze_fresh)

text \<open>
  C5, amended: for at least five rows the rolling series has its first four entries
  absent and then the sample standard deviation (divisor 4) of each window of 5
  consecutive voltages; the stability index is 100 less 10 times the mean of these
  standard deviations, the absent entries not counted, a finite number, and the report
  carries it rounded to 2 decimals.  For two to four rows every entry is absent and the
  index is NaN.
\<close>

theorem stability_index_formula:
  assumes "2 \<le> length df"
  shows
    "(5 \<le> length df \<longrightarrow>
        rolling_std 5 (map voltage_v df) =
          replicate 4 None @
          map (\<lambda>k. Some (sample_std (take 5 (drop k (map voltage_v df)))))
            [0..<length df - 4] \<and>
        v_stability df =
          Fin (100 - mean (map (\<lambda>k. sample_std (take 5 (drop k (map voltage_v df))))
                             [0..<length df - 4]) * 10) \<and>
        (\<forall>r. analyze df = Inr r \<longrightarrow>
           stability_index r =
             Fin (py_round
                    (100 - mean (map (\<lambda>k. sample_std (take 5 (drop k (map voltage_v df))))
                                   [0..<length df - 4]) * 10) 2))) \<and>
     (length df < 5 \<longrightarrow>
        rolling_std 5 (map voltage_v df) = replicate (length df) None \<and>
        v_stability df = NaN \<and>
        (\<forall>r. analyze df = Inr r \<longrightarrow> stability_index r = NaN))"
proof -
  have rep: "\<forall>r. analyze df = Inr r \<longrightarrow> stability_index r = fl_round (v_stability df) 2"
    using assms by (auto simp: analyze_def split: sum.splits)
  have full: "5 \<le> length df \<longrightarrow>
        rolling_std 5 (map voltage_v df) =
          replicate 4 None @
          map (\<lambda>k. Some (sample_std (take 5 (drop k (map voltage_v df)))))
            [0..<length df - 4] \<and>
        v_stability df =
          Fin (100 - mean (map (\<lambda>k. sample_std (take 5 (drop k (map voltage_v df))))
                             [0..<length df - 4]) * 10) \<and>
        (\<forall>r. analyze df = Inr r \<longrightarrow>
           stability_index r =
             Fin (py_round
                    (100 - mean (map (\<lambda>k. sample_std (take 5 (drop k (map voltage_v df))))
                                   [0..<length df - 4]) * 10) 2))"
  proof
    assume l: "5 \<le> length df"
    have w: "(0::nat) < 5" by simp
    have l': "5 \<le> length (map voltage_v df)" using l by simp
    have r: "rolling_std 5 (map voltage_v df) =
          replicate 4 None @
          map (\<lambda>k. Some (sample_std (take 5 (drop k (map voltage_v df)))))
            [0..<length df - 4]"
      using rolling_std_split [OF w l'] by simp
    note v = v_stability_full [OF l]
    from rep have "\<forall>r. analyze df = Inr r \<longrightarrow>
           stability_index r =
             Fin (py_round
                    (100 - mean (map (\<lambda>k. sample_std (take 5 (drop k (map voltage_v df))))
                                   [0..<length df - 4]) * 10) 2)"
      by (simp add: v)
    with r v show "rolling_std 5 (map voltage_v df) =
          replicate 4 None @
          map (\<lambda>k. Some (sample_std (take 5 (drop k (map voltage_v df)))))
            [0..<length df - 4] \<and>
        v_stability df =
          Fin (100 - mean (map (\<lambda>k. sample_std (take 5 (drop k (map voltage_v df))))
                             [0..<length df - 4]) * 10) \<and>
        (\<forall>r. analyze df = Inr r \<longrightarrow>
           stability_index r =
             Fin (py_round
                    (100 - mean (map (\<lambda>k. sample_std (take 5 (drop k (map voltage_v df))))
                                   [0..<length df - 4]) * 10) 2))"
      by blast
  qed
  have short: "length df < 5 \<longrightarrow>
        rolling_std 5 (map voltage_v df) = replicate (length df) None \<and>
        v_stability df = NaN \<and>
        (\<forall>r. analyze df = Inr r \<longrightarrow> stability_index r = NaN)"
  proof
    assume l: "length df < 5"
    then have "length (map voltage_v df) < 5" by simp
    from rolling_std_short [OF this]
    have r: "rolling_std 5 (map voltage_v df) = replicate (length df) None" by simp
    note v = v_stability_short [OF l]
    from rep have "\<forall>r. analyze df = Inr r \<longrightarrow> stability_index r = NaN" by (simp add: v)
    with r v show "rolling_std 5 (map voltage_v df) = replicate (length df) None \<and>
        v_stability df = NaN \<and>
        (\<forall>r. analyze df = Inr r \<longrightarrow> stability_index r = NaN)"
      by blast
  qed
  from full short show ?thesis by blast
qed

theorem stability_index_formula_witness:
  "2 \<le> length df_worn \<and> 5 \<le> length df_worn \<and>
   rolling_std 5 (map voltage_v df_worn) = [None, None, None, None, Some 2] \<and>
   v_stability df_worn = Fin 80 \<and>
   analyze df_worn =
     Inr \<lparr>soh_percent = Fin 75, health_score = 63, discharge_rate = - (6 / 10),
          stability_index = Fin 80, cycle_count = 100,
          recommendations = [rec_thermal, rec_eol, rec_discharge]\<rparr> \<and>
   py_round (100 - mean (map (\<lambda>k. sample_std (take 5 (drop k (map voltage_v df_worn))))
                           [0..<length df_worn - 4]) * 10) 2 = 80 \<and>
   2 \<le> length df_drain \<and> length df_drain < 5 \<and> v_stability df_drain = NaN"
proof -
  have l1: "2 \<le> length df_worn" and l5: "5 \<le> length df_worn" by (simp_all add: df_worn_def)
  have l2: "2 \<le> length df_drain" and l3: "length df_drain < 5"
    by (simp_all add: df_drain_def)
  note t = stability_index_formula [OF l1]
  from t l5 analyze_worn
  have "stability_index
         \<lparr>soh_percent = Fin 75, health_score = 63, discharge_rate = - (6 / 10),
          stability_index = Fin 80, cycle_count = 100,
          recommendations = [rec_thermal, rec_eol, rec_discharge]\<rparr> =
        Fin (py_round (100 - mean (map (\<lambda>k. sample_std (take 5 (drop k (map voltage_v df_worn))))
                           [0..<length df_worn - 4]) * 10) 2)"
    by blast
  then have a: "py_round (100 - mean (map (\<lambda>k. sample_std (take 5 (drop k (map voltage_v df_worn))))
                           [0..<length df_worn - 4]) * 10) 2 = 80"
    by simp
  from stability_index_formula [OF l2] l3 have b: "v_stability df_drain = NaN" by blast
  from l1 l5 rolling_std_worn v_stability_worn analyze_worn a l2 l3 b show ?thesis by blast
qed

section \<open>Properties of the logger\<close>

lemmas capture_defs =
  capture_telemetry_def read_thermal_def read_status_def init_logger_def read_sysfs_def
  hw_idle_def hw_garbled_def hw_negative_def hw_no_current_def hw_trickle_def hw_tie_def
  hw_ten_def tz0_def Let_def

lemmas capture_eval = trunc_def row_idle_def f64_eval

lemma capture_idle: "capture_telemetry (init_logger (Some tz0)) hw_idle = Inr row_idle"
  by (simp add: capture_defs) (simp add: capture_eval)

text \<open>
  Readings next to a decimal tie: the division by the scale and the product are taken
  in doubles before \<open>round\<close> sees them, so 12.0005 V is logged as 12.001, 15.005 W as
  15.01, and 10 V at 0.6005 A as a charge rate of 6.01.
\<close>

lemma capture_tie:
  "capture_telemetry (init_logger None) hw_tie =
     Inr \<lparr>timestamp = ''2024-01-01T00:00:00'', pct = 0, status = ''Charging'',
          voltage_v = fround (12001 / 1000), current_a = fround (601 / 1000),
          power_w = fround (1501 / 100), temp_c = 0,
          energy_wh = 0, energy_full_wh = 0, energy_design_wh = 0,
          cycles = 0, charge_rate_w = fround (721 / 100)\<rparr>"
  by (simp add: capture_defs) (simp add: capture_eval)

lemma capture_ten:
  "capture_telemetry (init_logger None) hw_ten =
     Inr \<lparr>timestamp = ''2024-01-01T00:00:00'', pct = 0, status = ''Charging'',
          voltage_v = 10, current_a = fround (601 / 1000),
          power_w = fround (601 / 100), temp_c = 0,
          energy_wh = 0, energy_full_wh = 0, energy_design_wh = 0,
          cycles = 0, charge_rate_w = fround (601 / 100)\<rparr>"
  by (simp add: capture_defs) (simp add: capture_eval)

text \<open>A capture looks at the thermal source of the logger only, not at what it remembers.\<close>

lemma capture_state:
  "capture_telemetry (lg\<lparr>rows := rs, last_status := l\<rparr>) hw = capture_telemetry lg hw"
  by (simp add: capture_telemetry_def)

lemma capture_last_status:
  "capture_telemetry (lg\<lparr>last_status := l\<rparr>) hw = capture_telemetry lg hw"
  by (simp add: capture_telemetry_def)

text \<open>The reads that go through \<open>_read_sysfs\<close> never fail: a node that cannot be read counts as 0.\<close>

lemma read_sysfs_default:
  "bat hw node \<in> {Missing, Unreadable, Unparsable} \<Longrightarrow> read_sysfs hw node scale = 0"
  by (auto simp: read_sysfs_def)

text \<open>A capture fails only through the thermal source or the status file.\<close>

lemma capture_completes:
  assumes "bat_status hw = Some st"
    and "\<And>path. thermal_zone lg = Some path \<Longrightarrow> \<exists>v. thermal hw path = Value v"
  shows "\<exists>d. capture_telemetry lg hw = Inr d"
proof (cases "thermal_zone lg")
  case None
  then show ?thesis using assms(1)
    by (simp add: capture_telemetry_def read_status_def Let_def)
next
  case (Some path)
  with assms(2) obtain v where "thermal hw path = Value v" by blast
  with Some assms(1) show ?thesis
    by (simp add: capture_telemetry_def read_status_def read_thermal_def Let_def)
qed

lemma capture_charge_rate:
  "capture_telemetry lg hw = Inr d \<Longrightarrow>
     bat_status hw = Some (status d) \<and>
     charge_rate_w d =
       (if status d = ''Charging''
        then f64_round (fmul (read_sysfs hw ''voltage_now'' 1000000)
                          (read_sysfs hw ''current_now'' 1000000)) 2
        else f64_round (- fmul (read_sysfs hw ''voltage_now'' 1000000)
                            (read_sysfs hw ''current_now'' 1000000)) 2)"
  by (auto simp: capture_telemetry_def read_status_def Let_def
      split: option.splits sum.splits)

text \<open>
  C3: a read that fails during a capture leaves a default of 0 and the loop goes on.
  This holds for the nodes read through \<open>_read_sysfs\<close> only.  With a thermal source
  found at start-up whose text is not a number, \<open>capture_telemetry\<close> raises
  \<open>ValueError\<close>; so does the iteration, and a loop that meets this state in its second
  iteration ends with the exception instead of going on to the third.  A status file
  that cannot be read raises \<open>OSError\<close> in the same way.
\<close>

theorem capture_failure_propagates:
  "capture_telemetry (init_logger (Some tz0)) hw_garbled = Inl ValueError \<and>
   run_iteration (init_logger (Some tz0)) hw_garbled = Inl ValueError \<and>
   run (init_logger (Some tz0)) [hw_idle, hw_garbled, hw_idle] = Inl ValueError \<and>
   capture_telemetry (init_logger (Some tz0)) (hw_idle\<lparr>bat_status := None\<rparr>) = Inl OSError"
proof -
  have g: "capture_telemetry lg hw_garbled = Inl ValueError"
    if "thermal_zone lg = Some tz0" for lg
    using that by (simp add: capture_telemetry_def read_thermal_def hw_garbled_def Let_def)
  have a: "capture_telemetry (init_logger (Some tz0)) hw_garbled = Inl ValueError"
    by (rule g) (simp add: init_logger_def)
  have b: "run_iteration (init_logger (Some tz0)) hw_garbled = Inl ValueError"
    by (simp add: run_iteration_def a)
  obtain lg' t where i: "run_iteration (init_logger (Some tz0)) hw_idle = Inr (lg', t)"
    by (simp add: run_iteration_def capture_idle)
  then have "thermal_zone lg' = thermal_zone (init_logger (Some tz0))"
    by (auto simp: run_iteration_def split: sum.splits)
  then have "thermal_zone lg' = Some tz0" by (simp add: init_logger_def)
  then have "run_iteration lg' hw_garbled = Inl ValueError"
    by (simp add: run_iteration_def g)
  with i have c: "run (init_logger (Some tz0)) [hw_idle, hw_garbled, hw_idle] = Inl ValueError"
    by simp
  have d: "capture_telemetry (init_logger (Some tz0)) (hw_idle\<lparr>bat_status := None\<rparr>)
      = Inl OSError"
    by (simp add: capture_defs)
  from a b c d show ?thesis by blast
qed

text \<open>
  C4: the interval chosen by an iteration is 2 exactly when the status read differs from
  the remembered one or the absolute power of the row exceeds 15, and 10 in every other
  case; the three sample calls of the specification give 2, 10 and 2.
\<close>

theorem adaptive_interval:
  "(sleep_time prev cur p = 2 \<longleftrightarrow> Some cur \<noteq> prev \<or> 15 < \<bar>p\<bar>) \<and>
   (sleep_time prev cur p = 10 \<longleftrightarrow> \<not> (Some cur \<noteq> prev \<or> 15 < \<bar>p\<bar>)) \<and>
   (capture_telemetry lg hw = Inr d \<longrightarrow>
      (\<exists>lg'. run_iteration lg hw =
               Inr (lg', sleep_time (last_status lg) (status d) (power_w d)))) \<and>
   sleep_time (Some ''Discharging'') ''Charging'' 5 = 2 \<and>
   sleep_time (Some ''Discharging'') ''Discharging'' 3 = 10 \<and>
   sleep_time (Some ''Discharging'') ''Discharging'' 20 = 2"
  by (simp add: sleep_time_def high_res_def run_iteration_def)

theorem adaptive_interval_witness:
  "capture_telemetry ((init_logger (Some tz0))\<lparr>last_status := Some ''Discharging''\<rparr>) hw_idle
     = Inr row_idle \<and>
   run_iteration ((init_logger (Some tz0))\<lparr>last_status := Some ''Discharging''\<rparr>) hw_idle
     = Inr (\<lparr>thermal_zone = Some tz0, last_status = Some ''Discharging'',
             rows = [row_idle]\<rparr>, 10) \<and>
   sleep_time (Some ''Discharging'') ''Discharging'' 6 = 10 \<and>
   sleep_time (Some ''Charging'') ''Discharging'' 6 = 2 \<and>
   sleep_time (Some ''Discharging'') ''Discharging'' (- 18) = 2"
proof -
  have c: "capture_telemetry ((init_logger (Some tz0))\<lparr>last_status := Some ''Discharging''\<rparr>)
      hw_idle = Inr row_idle"
    by (simp only: capture_last_status capture_idle)
  have r: "run_iteration ((init_logger (Some tz0))\<lparr>last_status := Some ''Discharging''\<rparr>)
      hw_idle
     = Inr (\<lparr>thermal_zone = Some tz0, last_status = Some ''Discharging'',
             rows = [row_idle]\<rparr>, 10)"
    by (simp add: run_iteration_def c)
      (simp add: init_logger_def row_idle_def sleep_time_def high_res_def remember_def)
  from adaptive_interval [of "Some ''Discharging''" "''Discharging''" 6
        "(init_logger (Some tz0))\<lparr>last_status := Some ''Discharging''\<rparr>" hw_idle row_idle]
  have s1: "sleep_time (Some ''Discharging'') ''Discharging'' 6 = 10" by simp
  from adaptive_interval [of "Some ''Charging''" "''Discharging''" 6]
  have s2: "sleep_time (Some ''Charging'') ''Discharging'' 6 = 2" by simp
  from adaptive_interval [of "Some ''Discharging''" "''Discharging''" "- 18"]
  have s3: "sleep_time (Some ''Discharging'') ''Discharging'' (- 18) = 2" by simp
  from c r s1 s2 s3 show ?thesis by blast
qed

text \<open>
  C9 as stated fails in both directions.  A charging battery whose current cannot be
  read is logged with a charge rate of 0, which is not positive; and the sign of
  \<open>charge_rate_w\<close> follows the status only while the product of the voltage and
  current readings is not negative: a discharging battery whose current reads as
  -1.5 A at 12 V is logged with a charge rate of +18.
\<close>

theorem charge_rate_counterexample:
  "capture_telemetry (init_logger None) hw_no_current =
     Inr \<lparr>timestamp = ''2024-01-01T00:00:00'', pct = 0, status = ''Charging'',
          voltage_v = 12, current_a = 0, power_w = 0, temp_c = 0,
          energy_wh = 0, energy_full_wh = 0, energy_design_wh = 0,
          cycles = 0, charge_rate_w = 0\<rparr> \<and>
   capture_telemetry (init_logger None) hw_negative =
     Inr \<lparr>timestamp = ''2024-01-01T00:00:00'', pct = 0, status = ''Discharging'',
          voltage_v = 12, current_a = - (3 / 2), power_w = - 18, temp_c = 0,
          energy_wh = 0, energy_full_wh = 0, energy_design_wh = 0,
          cycles = 0, charge_rate_w = 18\<rparr>"
  by (simp add: capture_defs) (simp add: capture_eval)

text \<open>
  C9, amended: the status of a captured row is the status read; \<open>charge_rate_w\<close> is the
  product of the voltage and current readings, taken in doubles and rounded to 2
  decimals by \<open>round\<close>, when that status is "Charging", and the negated product
  rounded to 2 decimals otherwise; so whenever the product of the readings is not
  negative, the rate is not negative while charging and not positive otherwise.
\<close>

theorem charge_rate_sign:
  assumes "capture_telemetry lg hw = Inr d"
  shows "bat_status hw = Some (status d) \<and>
     charge_rate_w d =
       (if status d = ''Charging''
        then f64_round (fmul (read_sysfs hw ''voltage_now'' 1000000)
                          (read_sysfs hw ''current_now'' 1000000)) 2
        else f64_round (- fmul (read_sysfs hw ''voltage_now'' 1000000)
                            (read_sysfs hw ''current_now'' 1000000)) 2) \<and>
     (0 \<le> read_sysfs hw ''voltage_now'' 1000000 * read_sysfs hw ''current_now'' 1000000 \<longrightarrow>
        0 \<le> fmul (read_sysfs hw ''voltage_now'' 1000000)
              (read_sysfs hw ''current_now'' 1000000) \<and>
        (if status d = ''Charging'' then 0 \<le> charge_rate_w d else charge_rate_w d \<le> 0))"
proof -
  have p: "0 \<le> fmul a b" if "0 \<le> a * b" for a b
    using that by (simp add: fmul_def fround_nonneg)
  show ?thesis
    using capture_charge_rate [OF assms]
    by (auto simp: f64_round_nonneg f64_round_nonpos p)
qed

theorem charge_rate_sign_witness:
  "capture_telemetry (init_logger (Some tz0)) hw_idle = Inr row_idle \<and>
   0 \<le> read_sysfs hw_idle ''voltage_now'' 1000000 * read_sysfs hw_idle ''current_now'' 1000000 \<and>
   status row_idle \<noteq> ''Charging'' \<and> charge_rate_w row_idle = - 6 \<and>
   charge_rate_w row_idle \<le> 0 \<and>
   capture_telemetry (init_logger None) hw_trickle =
     Inr \<lparr>timestamp = ''2024-01-01T00:00:00'', pct = 0, status = ''Charging'',
          voltage_v = 3, current_a = fround (5 / 1000), power_w = fround (1 / 100),
          temp_c = 0, energy_wh = 0, energy_full_wh = 0, energy_design_wh = 0,
          cycles = 0, charge_rate_w = fround (1 / 100)\<rparr> \<and>
   0 \<le> fround (1 / 100)"
proof -
  have t: "capture_telemetry (init_logger None) hw_trickle =
     Inr \<lparr>timestamp = ''2024-01-01T00:00:00'', pct = 0, status = ''Charging'',
          voltage_v = 3, current_a = fround (5 / 1000), power_w = fround (1 / 100),
          temp_c = 0, energy_wh = 0, energy_full_wh = 0, energy_design_wh = 0,
          cycles = 0, charge_rate_w = fround (1 / 100)\<rparr>"
    by (simp add: capture_defs) (simp add: capture_eval)
  have v: "read_sysfs hw_idle ''voltage_now'' 1000000 = 12"
    by (simp add: hw_idle_def read_sysfs_def) (simp add: f64_eval)
  have c: "read_sysfs hw_idle ''current_now'' 1000000 = 1 / 2"
    by (simp add: hw_idle_def read_sysfs_def) (simp add: f64_eval)
  have v': "read_sysfs hw_trickle ''voltage_now'' 1000000 = 3"
    by (simp add: hw_trickle_def hw_idle_def read_sysfs_def) (simp add: f64_eval)
  have c': "0 \<le> read_sysfs hw_trickle ''current_now'' 1000000"
    by (simp add: hw_trickle_def hw_idle_def read_sysfs_def fdiv_def fround_nonneg)
  have pos: "0 \<le> read_sysfs hw_trickle ''voltage_now'' 1000000 *
      read_sysfs hw_trickle ''current_now'' 1000000"
    using c' by (simp add: v')
  from charge_rate_sign [OF capture_idle]
  have a: "charge_rate_w row_idle \<le> 0" by (simp add: v c row_idle_def)
  from charge_rate_sign [OF t] pos
  have b: "0 \<le> fround (1 / 100)" by simp
  have m: "status row_idle \<noteq> ''Charging'' \<and> charge_rate_w row_idle = - 6"
    by (simp add: row_idle_def)
  have n: "0 \<le> read_sysfs hw_idle ''voltage_now'' 1000000 *
      read_sysfs hw_idle ''current_now'' 1000000"
    by (simp add: v c)
  from capture_idle n m a t b show ?thesis by blast
qed

text \<open>
  C10: the state built by \<open>__init__\<close> remembers no status, and no status string equals
  that; so the first iteration of a session, whatever it reads, sleeps for the high-res
  interval of 2 (when the capture itself does not raise).
\<close>

theorem first_iteration_high_res:
  "last_status (init_logger tz) = None \<and>
   sleep_time (last_status (init_logger tz)) st p = 2 \<and>
   run_iteration (init_logger tz) hw =
     (case capture_telemetry (init_logger tz) hw of
        Inl e \<Rightarrow> Inl e
      | Inr d \<Rightarrow>
          Inr (\<lparr>thermal_zone = tz, last_status = Some (status d), rows = [d]\<rparr>, 2))"
  by (simp add: init_logger_def sleep_time_def high_res_def remember_def run_iteration_def
      split: sum.splits)

theorem first_iteration_high_res_witness:
  "sleep_time (last_status (init_logger (Some tz0))) ''Discharging'' 6 = 2 \<and>
   run_iteration (init_logger (Some tz0)) hw_idle =
     Inr (\<lparr>thermal_zone = Some tz0, last_status = Some ''Discharging'',
            rows = [row_idle]\<rparr>, 2)"
  using first_iteration_high_res [of "Some tz0" "''Discharging''" 6 hw_idle] capture_idle
  by (simp add: row_idle_def init_logger_def)

end
